theory Spec2Isabelle
  imports Complex_Main "HOL-Library.Multiset" "HOL-Library.Log_Nat"
begin

section \<open>Hex strings and the JavaScript built-ins the code relies on\<close>

text \<open>
  The program (\<^verbatim>\<open>src/utils/blockchain.ts\<close>) handles byte strings as \<^verbatim>\<open>0x\<close>-prefixed
  hex strings. They are modelled as \<open>string\<close>; a byte is two hex characters.
  On-chain quantities (\<^verbatim>\<open>bigint\<close> values holding uint256 fields) are \<open>nat\<close>.
\<close>

type_synonym hex = string

definition hexDigitValue :: "char \<Rightarrow> nat option" where
  "hexDigitValue c =
     (let n = (of_char c :: nat) in
      if 48 \<le> n \<and> n \<le> 57 then Some (n - 48)
      else if 97 \<le> n \<and> n \<le> 102 then Some (n - 87)
      else if 65 \<le> n \<and> n \<le> 70 then Some (n - 55)
      else None)"

definition isHexDigit :: "char \<Rightarrow> bool" where
  "isHexDigit c = (hexDigitValue c \<noteq> None)"

definition isDecDigit :: "char \<Rightarrow> bool" where
  "isDecDigit c = (48 \<le> (of_char c :: nat) \<and> (of_char c :: nat) \<le> 57)"

definition digitOr0 :: "char \<Rightarrow> nat" where
  "digitOr0 c = (case hexDigitValue c of Some d \<Rightarrow> d | None \<Rightarrow> 0)"

text \<open>The number a string of digits denotes in the given radix, most significant first.\<close>

definition digitsValue :: "nat \<Rightarrow> string \<Rightarrow> nat" where
  "digitsValue radix s = foldl (\<lambda>a c. radix * a + digitOr0 c) 0 s"

definition hexDigit :: "nat \<Rightarrow> char" where
  "hexDigit n = ''0123456789abcdef'' ! (n mod 16)"

text \<open>\<^verbatim>\<open>BigInt.prototype.toString(16)\<close> on a non-negative value: lower case, no leading zero.\<close>

function toString16 :: "nat \<Rightarrow> string" where
  "toString16 n = (if n < 16 then [hexDigit n] else toString16 (n div 16) @ [hexDigit n])"
  by pat_completeness auto
termination
  by (relation "measure id") auto

declare toString16.simps [simp del]

text \<open>
  \<^verbatim>\<open>parseInt(s)\<close> with no radix: a \<^verbatim>\<open>0x\<close>/\<^verbatim>\<open>0X\<close> prefix selects radix 16, the longest
  prefix of digits is read, and no digit at all gives \<^verbatim>\<open>NaN\<close> (\<open>None\<close>). Every argument
  in this program is built as \<^verbatim>\<open>`0x${...}`\<close>, so leading white space and signs, which
  cannot occur in front of it, are left out.
\<close>

definition parseInt :: "string \<Rightarrow> nat option" where
  "parseInt s =
     (if take 2 s = ''0x'' \<or> take 2 s = ''0X''
      then (let ds = takeWhile isHexDigit (drop 2 s)
            in if ds = [] then None else Some (digitsValue 16 ds))
      else (let ds = takeWhile isDecDigit s
            in if ds = [] then None else Some (digitsValue 10 ds)))"

text \<open>
  \<^verbatim>\<open>BigInt(s)\<close> on a string, as viem's \<^verbatim>\<open>hexToBigInt\<close> calls it: the whole string must be
  a literal, otherwise a \<^verbatim>\<open>SyntaxError\<close> is thrown (\<open>None\<close>). Hex and decimal digit strings
  are modelled, which covers the \<^verbatim>\<open>`0x${string}`\<close> addresses and the JSON-RPC hex
  quantities the program passes. The other literal forms of JavaScript (binary, octal,
  a sign, surrounding white space) are not: the properties below are stated for strings
  this function reads, and none rests on its answer \<open>None\<close> being an error of the program.
\<close>

definition stringToBigInt :: "string \<Rightarrow> nat option" where
  "stringToBigInt s =
     (if take 2 s = ''0x'' \<or> take 2 s = ''0X''
      then (if drop 2 s \<noteq> [] \<and> list_all isHexDigit (drop 2 s)
            then Some (digitsValue 16 (drop 2 s)) else None)
      else (if list_all isDecDigit s then Some (digitsValue 10 s) else None))"

definition hexToBigInt :: "hex \<Rightarrow> nat option" where
  "hexToBigInt h = stringToBigInt h"

text \<open>\<^verbatim>\<open>String.prototype.slice(start, end)\<close> for \<open>0 \<le> start\<close>, and with \<open>end\<close> omitted.\<close>

definition slice :: "string \<Rightarrow> nat \<Rightarrow> nat option \<Rightarrow> string" where
  "slice s start end = (case end of None \<Rightarrow> drop start s | Some e \<Rightarrow> take (e - start) (drop start s))"

text \<open>\<^verbatim>\<open>x.replace('0x', '')\<close>: the first occurrence of \<^verbatim>\<open>0x\<close> is removed.\<close>

fun remove0x :: "string \<Rightarrow> string" where
  "remove0x (a # b # cs) =
     (if a = CHR ''0'' \<and> b = CHR ''x'' then cs else a # remove0x (b # cs))"
| "remove0x cs = cs"

text \<open>viem's \<^verbatim>\<open>concatHex\<close> (what \<^verbatim>\<open>concat\<close> does on hex strings).\<close>

definition concatHex :: "hex list \<Rightarrow> hex" where
  "concatHex values = ''0x'' @ foldl (\<lambda>acc x. acc @ remove0x x) [] values"

datatype error =
    UndeployedAccount
  | FeeFetchError
  | InvalidConfig
  | SyntaxError
  | RangeError
  | IntegerOutOfRangeError
  | SizeExceedsPaddingSizeError
  | ExternalError string

text \<open>
  The first three are the program's own \<^verbatim>\<open>logAndExit\<close> calls (nonce 0, incomplete fee
  data, multiplier below 1), named after the specification's error kinds. The next four
  are thrown by the JavaScript runtime and by viem. \<open>ExternalError\<close> is whatever a
  collaborator (RPC transport, fee oracle, signer) throws; the program rethrows it.
\<close>

text \<open>viem's \<^verbatim>\<open>padHex\<close> to \<open>sz\<close> bytes, padding on the left.\<close>

definition padHex :: "hex \<Rightarrow> nat \<Rightarrow> error + hex" where
  "padHex hexIn sz =
     (let hex = remove0x hexIn in
      if length hex > sz * 2 then Inl SizeExceedsPaddingSizeError
      else Inr (''0x'' @ replicate (sz * 2 - length hex) CHR ''0'' @ hex))"

text \<open>
  viem's \<^verbatim>\<open>numberToHex\<close> (what \<^verbatim>\<open>toHex\<close> does on a number or bigint), unsigned. The
  argument is \<open>None\<close> for \<^verbatim>\<open>NaN\<close>, on which \<^verbatim>\<open>BigInt(value)\<close> throws a \<^verbatim>\<open>RangeError\<close>.
  With a size the value must fit in that many bytes. Without a size the program passes
  bigints only, which have no upper bound.
\<close>

definition numberToHex :: "nat option \<Rightarrow> nat option \<Rightarrow> error + hex" where
  "numberToHex numIn size_opt =
     (case numIn of
        None \<Rightarrow> Inl RangeError
      | Some v \<Rightarrow>
          (case size_opt of
             None \<Rightarrow> Inr (''0x'' @ toString16 v)
           | Some sz \<Rightarrow>
               if sz \<noteq> 0 \<and> v > 2 ^ (sz * 8) - 1 then Inl IntegerOutOfRangeError
               else if sz \<noteq> 0 then padHex (''0x'' @ toString16 v) sz
               else Inr (''0x'' @ toString16 v)))"

section \<open>JavaScript numbers\<close>

text \<open>
  A JavaScript number is an IEEE 754 binary64 value: a finite double, given here by the
  real number it denotes, one of the two infinities, or \<^verbatim>\<open>NaN\<close>. The two zeros are not
  told apart; no operation the program applies distinguishes them.
\<close>

datatype number = Num real | PosInfinity | NegInfinity | NaN

text \<open>
  Every arithmetic operation returns the exact result rounded to the nearest double,
  ties to the even significand. For \<open>x \<noteq> 0\<close>, \<open>binade x\<close> is the exponent \<open>E\<close> with
  \<open>2 ^ E \<le> \<bar>x\<bar> < 2 ^ (E + 1)\<close>; the doubles around \<open>x\<close> are the multiples of
  \<open>2 ^ (E - 52)\<close>, and of \<open>2 ^ - 1074\<close> in the subnormal range. A result that rounds to
  \<open>2 ^ 1024\<close> or beyond is an infinity.
\<close>

definition binade :: "real \<Rightarrow> int" where
  "binade x =
     (if 1 \<le> \<bar>x\<bar> then bitlen \<lfloor>\<bar>x\<bar>\<rfloor> - 1 else - bitlen (\<lceil>1 / \<bar>x\<bar>\<rceil> - 1))"

definition roundHalfEven :: "real \<Rightarrow> int" where
  "roundHalfEven y =
     (let f = \<lfloor>y\<rfloor>; r = y - of_int f
      in if r < 1 / 2 then f
         else if 1 / 2 < r then f + 1
         else if even f then f else f + 1)"

definition ulpExponent :: "real \<Rightarrow> int" where
  "ulpExponent x = max (binade x - 52) (- 1074)"

definition roundToDouble :: "real \<Rightarrow> number" where
  "roundToDouble x =
     (if x = 0 then Num 0
      else (let e = ulpExponent x;
                v = of_int (roundHalfEven (x / 2 powi e)) * 2 powi e
            in if 2 ^ 1024 \<le> \<bar>v\<bar> then (if 0 < x then PosInfinity else NegInfinity)
               else Num v))"

fun jsNegate :: "number \<Rightarrow> number" where
  "jsNegate (Num x) = Num (- x)"
| "jsNegate PosInfinity = NegInfinity"
| "jsNegate NegInfinity = PosInfinity"
| "jsNegate NaN = NaN"

text \<open>\<^verbatim>\<open>a + b\<close> on numbers.\<close>

fun jsAdd :: "number \<Rightarrow> number \<Rightarrow> number" where
  "jsAdd NaN b = NaN"
| "jsAdd a NaN = NaN"
| "jsAdd (Num x) (Num y) = roundToDouble (x + y)"
| "jsAdd PosInfinity NegInfinity = NaN"
| "jsAdd NegInfinity PosInfinity = NaN"
| "jsAdd PosInfinity b = PosInfinity"
| "jsAdd a PosInfinity = PosInfinity"
| "jsAdd NegInfinity b = NegInfinity"
| "jsAdd a NegInfinity = NegInfinity"

text \<open>\<^verbatim>\<open>a - b\<close> on numbers.\<close>

definition jsSubtract :: "number \<Rightarrow> number \<Rightarrow> number" where
  "jsSubtract a b = jsAdd a (jsNegate b)"

definition signedInfinity :: "bool \<Rightarrow> number" where
  "signedInfinity positive = (if positive then PosInfinity else NegInfinity)"

text \<open>\<^verbatim>\<open>a * b\<close> on numbers.\<close>

fun jsMultiply :: "number \<Rightarrow> number \<Rightarrow> number" where
  "jsMultiply NaN b = NaN"
| "jsMultiply a NaN = NaN"
| "jsMultiply (Num x) (Num y) = roundToDouble (x * y)"
| "jsMultiply PosInfinity (Num y) = (if y = 0 then NaN else signedInfinity (0 < y))"
| "jsMultiply NegInfinity (Num y) = (if y = 0 then NaN else signedInfinity (y < 0))"
| "jsMultiply (Num x) PosInfinity = (if x = 0 then NaN else signedInfinity (0 < x))"
| "jsMultiply (Num x) NegInfinity = (if x = 0 then NaN else signedInfinity (x < 0))"
| "jsMultiply PosInfinity PosInfinity = PosInfinity"
| "jsMultiply NegInfinity NegInfinity = PosInfinity"
| "jsMultiply PosInfinity NegInfinity = NegInfinity"
| "jsMultiply NegInfinity PosInfinity = NegInfinity"

text \<open>\<^verbatim>\<open>a < b\<close> on numbers: false whenever an operand is \<^verbatim>\<open>NaN\<close>.\<close>

fun jsLess :: "number \<Rightarrow> number \<Rightarrow> bool" where
  "jsLess NaN b = False"
| "jsLess a NaN = False"
| "jsLess (Num x) (Num y) = (x < y)"
| "jsLess PosInfinity b = False"
| "jsLess a PosInfinity = True"
| "jsLess NegInfinity b = (b \<noteq> NegInfinity)"
| "jsLess a NegInfinity = False"

text \<open>
  \<^verbatim>\<open>Math.round\<close>: the integer nearest to the argument, the one towards \<open>+\<infinity>\<close> of two equally
  near; an infinity or \<^verbatim>\<open>NaN\<close> is returned as it is. The result is exact: below \<open>2 ^ 52\<close>
  every integer is a double, and from there on every double is an integer.
\<close>

fun Math_round :: "number \<Rightarrow> number" where
  "Math_round (Num x) = Num (of_int \<lfloor>x + 1 / 2\<rfloor>)"
| "Math_round a = a"

text \<open>
  \<^verbatim>\<open>BigInt(n)\<close> on a number: the integer itself, and a \<^verbatim>\<open>RangeError\<close> for a number that is
  not an integer (\<^verbatim>\<open>NaN\<close> and the infinities included).
\<close>

fun numberToBigInt :: "number \<Rightarrow> error + int" where
  "numberToBigInt (Num x) = (if of_int \<lfloor>x\<rfloor> = x then Inr \<lfloor>x\<rfloor> else Inl RangeError)"
| "numberToBigInt a = Inl RangeError"

text \<open>\<^verbatim>\<open>a / b\<close> on bigints, for \<open>b \<noteq> 0\<close>: the quotient truncated towards zero.\<close>

definition bigintDivide :: "int \<Rightarrow> int \<Rightarrow> int" where
  "bigintDivide a b = sgn a * sgn b * (\<bar>a\<bar> div \<bar>b\<bar>)"

section \<open>Data model\<close>

record UserOperation =
  sender :: hex
  nonce :: nat
  factory :: "hex option"
  factoryData :: "hex option"
  callData :: hex
  maxPriorityFeePerGas :: nat
  maxFeePerGas :: nat
  callGasLimit :: nat
  verificationGasLimit :: nat
  preVerificationGas :: nat
  signature :: hex

text \<open>
  An element of the \<^verbatim>\<open>signatures\<close> array:
  \<^verbatim>\<open>{ signer: Address; signature: string; userOpSigType?: string }\<close>.
\<close>

record SignatureEntry =
  sig_signer :: hex
  sig_signature :: string
  sig_userOpSigType :: "string option"

section \<open>The signature packer: \<^verbatim>\<open>buildMultiSigUserOp\<close>\<close>

definition takeBytes :: "string \<Rightarrow> nat option \<Rightarrow> nat option \<Rightarrow> string" where
  "takeBytes bytes offset cnt =
     (let start = (case offset of None \<Rightarrow> 0 | Some off \<Rightarrow> if off \<noteq> 0 then off * 2 else 0) + 2;
          end = (case cnt of None \<Rightarrow> None
                 | Some c \<Rightarrow> if c \<noteq> 0 then Some (start + c * 2) else None)
      in ''0x'' @ slice bytes start end)"

text \<open>The number the comparator compares; it throws when the address is no literal.\<close>

definition signerKey :: "SignatureEntry \<Rightarrow> nat" where
  "signerKey s = (case hexToBigInt (sig_signer s) of Some n \<Rightarrow> n | None \<Rightarrow> 0)"

text \<open>
  \<^verbatim>\<open>signatures.sort((a, b) => ...)\<close>: \<^verbatim>\<open>Array.prototype.sort\<close> is stable, and with a
  comparator that orders by a key its result is the stable sort by that key, which
  \<open>sort_key\<close> computes. With fewer than two elements the comparator is never called;
  otherwise every element is compared at least once, so an address on which
  \<^verbatim>\<open>hexToBigInt\<close> throws aborts the sort.
\<close>

definition sortBySigner :: "SignatureEntry list \<Rightarrow> error + SignatureEntry list" where
  "sortBySigner signatures =
     (if length signatures \<le> 1 then Inr signatures
      else if list_all (\<lambda>s. hexToBigInt (sig_signer s) \<noteq> None) signatures
      then Inr (sort_key signerKey signatures)
      else Inl SyntaxError)"

text \<open>The body of the \<^verbatim>\<open>forEach\<close> callback: the text it appends to \<^verbatim>\<open>eoaSigs\<close>.\<close>

definition packEntry :: "SignatureEntry \<Rightarrow> error + string" where
  "packEntry sig =
     (let addV = (if sig_userOpSigType sig = Some ''ACTUAL'' then 32 else 0 :: nat);
          v = map_option (\<lambda>n. n + addV) (parseInt (takeBytes (sig_signature sig) (Some 64) (Some 1)))
      in case numberToHex v (Some 1) of
           Inl e \<Rightarrow> Inl e
         | Inr vHex \<Rightarrow>
             Inr (drop 2 (concatHex [takeBytes (sig_signature sig) None (Some 64), vHex])))"

fun forEachSig :: "SignatureEntry list \<Rightarrow> string \<Rightarrow> error + string" where
  "forEachSig [] eoaSigs = Inr eoaSigs"
| "forEachSig (sig # sigs) eoaSigs =
     (case packEntry sig of
        Inl e \<Rightarrow> Inl e
      | Inr chunk \<Rightarrow> forEachSig sigs (eoaSigs @ chunk))"

definition buildMultiSigUserOp ::
    "UserOperation \<Rightarrow> SignatureEntry list \<Rightarrow> error + UserOperation" where
  "buildMultiSigUserOp userOp signatures =
     (case sortBySigner signatures of
        Inl e \<Rightarrow> Inl e
      | Inr sortedSigs \<Rightarrow>
          (case forEachSig sortedSigs [] of
             Inl e \<Rightarrow> Inl e
           | Inr eoaSigs \<Rightarrow> Inr (userOp\<lparr>signature := ''0x'' @ eoaSigs\<rparr>)))"

section \<open>External collaborators and their calls\<close>

text \<open>
  The RPC transport, the fee oracle, the provider's minimum-fee endpoint and the signer
  are outside the program. A \<open>world\<close> gives the answer of each; the answer is \<open>Inl\<close> when
  the call throws. The \<^verbatim>\<open>chain\<close> and the clients built from it only select the network,
  which the world stands for. \<open>isAlchemyBundler\<close> (\<^verbatim>\<open>src/utils/helpers.js\<close>, not among the
  sources) is a predicate on the bundler URL and is taken as a parameter.
\<close>

record Signer =
  address :: hex
  privateKey :: string

text \<open>What \<^verbatim>\<open>estimateFeesPerGas\<close> returns; a field is \<open>None\<close> when absent.\<close>

record FeesPerGas =
  oracle_maxFeePerGas :: "nat option"
  oracle_maxPriorityFeePerGas :: "nat option"

record GasLimits =
  est_callGasLimit :: nat
  est_verificationGasLimit :: nat
  est_preVerificationGas :: nat

record PackedUserOperation =
  packed_sender :: hex
  packed_nonce :: nat
  packed_callData :: hex
  packed_accountGasLimits :: hex
  packed_initCode :: hex
  packed_preVerificationGas :: nat
  packed_gasFees :: hex
  packed_paymasterAndData :: hex
  packed_signature :: hex

record world =
  getAccountNonce :: "hex \<Rightarrow> error + nat"
  estimateFeesPerGas :: "error + FeesPerGas"
  isAlchemyBundler :: "string \<Rightarrow> bool"
  rundler_maxPriorityFeePerGas :: "string \<Rightarrow> error + string option"
  estimateUserOperationGas :: "UserOperation \<Rightarrow> error + GasLimits"
  readContract_getUserOpHash :: "hex \<Rightarrow> PackedUserOperation \<Rightarrow> error + hex"
  signMessage :: "string \<Rightarrow> hex \<Rightarrow> error + string"

text \<open>
  \<open>rundler_maxPriorityFeePerGas\<close> is the \<^verbatim>\<open>fetch\<close> of the provider's endpoint followed by
  \<^verbatim>\<open>res.json()\<close>: \<open>Inl\<close> when either rejects, otherwise the \<^verbatim>\<open>result\<close> member of the
  response (\<open>None\<close> when the response has none).
\<close>

text \<open>Every call that leaves the program is recorded, in order.\<close>

datatype call =
    NonceQuery hex
  | FeeOracleQuery
  | ProviderMinFeeQuery string
  | GasEstimation UserOperation
  | HashQuery hex PackedUserOperation
  | SignMessage string hex

text \<open>Signing is local; the other calls go over the network.\<close>

fun isNetworkCall :: "call \<Rightarrow> bool" where
  "isNetworkCall (SignMessage k h) = False"
| "isNetworkCall c = True"

text \<open>
  An awaited computation: the calls it made, and its result or the error it threw.
\<close>

type_synonym 'a io = "call list \<times> (error + 'a)"

definition ret :: "'a \<Rightarrow> 'a io" where
  "ret x = ([], Inr x)"

definition lift :: "error + 'a \<Rightarrow> 'a io" where
  "lift r = ([], r)"

definition perform :: "call \<Rightarrow> error + 'a \<Rightarrow> 'a io" where
  "perform c r = ([c], r)"

definition andThen :: "'a io \<Rightarrow> ('a \<Rightarrow> 'b io) \<Rightarrow> 'b io" where
  "andThen m f =
     (case m of
        (t, Inl e) \<Rightarrow> (t, Inl e)
      | (t, Inr x) \<Rightarrow> (case f x of (t', r) \<Rightarrow> (t @ t', r)))"

text \<open>
  Modelled from the spec: \<^verbatim>\<open>logAndExit\<close> (\<^verbatim>\<open>src/utils/logger.js\<close>, not among the sources).
  The specification describes it as the log-and-exit idiom that becomes a typed error:
  the run ends there with the error kind of the message.
\<close>

definition logAndExit :: "error \<Rightarrow> 'a io" where
  "logAndExit e = ([], Inl e)"

text \<open>
  Modelled from the spec: \<^verbatim>\<open>maxBigInt\<close> (\<^verbatim>\<open>src/utils/helpers.js\<close>, not among the sources).
  The specification floors the scaled priority fee at the provider's value by taking
  the maximum of the two.
\<close>

definition maxBigInt :: "nat \<Rightarrow> nat \<Rightarrow> nat" where
  "maxBigInt a b = (if a < b then b else a)"

section \<open>The operation hasher and the signer: \<^verbatim>\<open>getUserOpHash\<close>, \<^verbatim>\<open>signUserOp\<close>\<close>

definition ENTRYPOINT_ADDRESS_V07 :: hex where
  "ENTRYPOINT_ADDRESS_V07 = ''0x0000000071727De22E5E9d8BAf0edAc6f37da032''"

text \<open>\<^verbatim>\<open>pad(toHex(x), { size: 16 })\<close> on a bigint.\<close>

definition pad16 :: "nat \<Rightarrow> error + hex" where
  "pad16 x = (case numberToHex (Some x) None of Inl e \<Rightarrow> Inl e | Inr h \<Rightarrow> padHex h 16)"

text \<open>\<^verbatim>\<open>a && b\<close> on two optional strings is truthy when both are present and not empty.\<close>

definition bothTruthy :: "string option \<Rightarrow> string option \<Rightarrow> bool" where
  "bothTruthy a b =
     (case a of None \<Rightarrow> False
      | Some x \<Rightarrow> (case b of None \<Rightarrow> False | Some y \<Rightarrow> x \<noteq> [] \<and> y \<noteq> []))"

text \<open>
  The \<^verbatim>\<open>packedUserOp\<close> object built in \<^verbatim>\<open>getUserOpHash\<close>. \<^verbatim>\<open>toHex("")\<close> is \<^verbatim>\<open>0x\<close>. Padding
  throws when a value does not fit 16 bytes.
\<close>

definition packedUserOp :: "UserOperation \<Rightarrow> error + PackedUserOperation" where
  "packedUserOp userOp =
     (let initCode =
            (if bothTruthy (factory userOp) (factoryData userOp)
             then concatHex [case_option [] id (factory userOp),
                             case_option [] id (factoryData userOp)]
             else ''0x'')
      in case pad16 (verificationGasLimit userOp) of Inl e \<Rightarrow> Inl e | Inr vgl \<Rightarrow>
        (case pad16 (callGasLimit userOp) of Inl e \<Rightarrow> Inl e | Inr cgl \<Rightarrow>
        (case pad16 (maxPriorityFeePerGas userOp) of Inl e \<Rightarrow> Inl e | Inr mpf \<Rightarrow>
        (case pad16 (maxFeePerGas userOp) of Inl e \<Rightarrow> Inl e | Inr mf \<Rightarrow>
           Inr \<lparr>packed_sender = sender userOp,
                packed_nonce = nonce userOp,
                packed_callData = callData userOp,
                packed_accountGasLimits = concatHex [vgl, cgl],
                packed_initCode = initCode,
                packed_preVerificationGas = preVerificationGas userOp,
                packed_gasFees = concatHex [mpf, mf],
                packed_paymasterAndData = ''0x'',
                packed_signature = signature userOp\<rparr>))))"

definition getUserOpHash :: "world \<Rightarrow> UserOperation \<Rightarrow> hex \<Rightarrow> hex io" where
  "getUserOpHash w userOp entryPoint =
     andThen (lift (packedUserOp userOp)) (\<lambda>packed.
       perform (HashQuery entryPoint packed) (readContract_getUserOpHash w entryPoint packed))"

definition signUserOp :: "world \<Rightarrow> Signer \<Rightarrow> UserOperation \<Rightarrow> string io" where
  "signUserOp w signer userOp =
     andThen (getUserOpHash w userOp ENTRYPOINT_ADDRESS_V07) (\<lambda>partialUserOpHash.
       perform (SignMessage (privateKey signer) partialUserOpHash)
         (signMessage w (privateKey signer) partialUserOpHash))"

section \<open>The base operation: \<^verbatim>\<open>getPartialUserOp\<close>\<close>

definition getPartialUserOp :: "world \<Rightarrow> hex \<Rightarrow> hex \<Rightarrow> UserOperation io" where
  "getPartialUserOp w senderAddress callDataArg =
     andThen (perform (NonceQuery senderAddress) (getAccountNonce w senderAddress)) (\<lambda>n.
       (let userOp =
              \<lparr>sender = senderAddress, nonce = n, factory = None, factoryData = None,
               callData = callDataArg, maxPriorityFeePerGas = 0, maxFeePerGas = 0,
               callGasLimit = 0, verificationGasLimit = 0, preVerificationGas = 0,
               signature = ''0x''\<rparr>
        in if nonce userOp = 0 then logAndExit UndeployedAccount else ret userOp))"

section \<open>The fee estimator: \<^verbatim>\<open>estimateUserOp\<close>\<close>

text \<open>\<^verbatim>\<open>!fee\<close> on an optional bigint: true when it is absent or \<^verbatim>\<open>0n\<close>.\<close>

definition falsyFee :: "nat option \<Rightarrow> bool" where
  "falsyFee f = (case f of None \<Rightarrow> True | Some n \<Rightarrow> n = 0)"

text \<open>
  The multiplier is a JavaScript number, and so are the two values computed from it:
  \<^verbatim>\<open>Math.round((gasFeesMultiplier - 1) * 100)\<close> and \<^verbatim>\<open>100 + percentageIncrease\<close>.
\<close>

definition percentageIncrease :: "number \<Rightarrow> number" where
  "percentageIncrease gasFeesMultiplier =
     Math_round (jsMultiply (jsSubtract gasFeesMultiplier (Num 1)) (Num 100))"

definition scaledGasFeesMultiplier :: "number \<Rightarrow> number" where
  "scaledGasFeesMultiplier gasFeesMultiplier =
     jsAdd (Num 100) (percentageIncrease gasFeesMultiplier)"

text \<open>
  \<^verbatim>\<open>fee * scaled / BigInt(100)\<close> on bigints, where \<open>scaled\<close> is
  \<^verbatim>\<open>BigInt(scaledGasFeesMultiplier)\<close>. The fee fields are \<open>nat\<close>; where the program gets
  here \<open>scaled\<close> is at least 100 (\<open>scaled_at_least_100\<close> below), so nothing is cut off.
\<close>

definition scaleFee :: "nat \<Rightarrow> int \<Rightarrow> nat" where
  "scaleFee fee scaled = nat (bigintDivide (int fee * scaled) 100)"

text \<open>
  The scaled fee as a function of the multiplier, for stating properties: what
  \<open>scaleFee\<close> gives when \<^verbatim>\<open>BigInt(scaledGasFeesMultiplier)\<close> does not throw. Where it
  throws no fee is computed (\<open>estimateUserOp\<close> below ends with the error), and the value
  here is 0.
\<close>

definition adjustFee :: "nat \<Rightarrow> number \<Rightarrow> nat" where
  "adjustFee fee gasFeesMultiplier =
     (case numberToBigInt (scaledGasFeesMultiplier gasFeesMultiplier) of
        Inl e \<Rightarrow> 0
      | Inr scaled \<Rightarrow> scaleFee fee scaled)"

definition placeholderSignature :: string where
  "placeholderSignature =
     ''fffffffffffffffffffffffffffffff0000000000000000000000000000000007'' @
     ''aaaaaaaaaaaaaaaaaaaaaaaaaaaaaaaaaaaaaaaaaaaaaaaaaaaaaaaaaaaaaaa3c''"

text \<open>The provider's floor: \<^verbatim>\<open>alchemyHexResult ? BigInt(alchemyHexResult) : BigInt(0)\<close>.\<close>

definition alchemyFloor :: "string option \<Rightarrow> error + nat" where
  "alchemyFloor alchemyHexResult =
     (case alchemyHexResult of
        None \<Rightarrow> Inr 0
      | Some h \<Rightarrow>
          if h = [] then Inr 0
          else (case stringToBigInt h of None \<Rightarrow> Inl SyntaxError | Some n \<Rightarrow> Inr n))"

text \<open>
  The operation sent to the bundler for estimation: the fees as adjusted, the three gas
  fields zero, and a signature of \<open>numSigners\<close> copies of the 65-byte filler.
\<close>

definition partialUserOpForEstimate ::
    "UserOperation \<Rightarrow> nat \<Rightarrow> nat \<Rightarrow> nat \<Rightarrow> UserOperation" where
  "partialUserOpForEstimate userOp adjustedMaxPriorityFeePerGas adjustedMaxFeePerGas numSigners =
     \<lparr>sender = sender userOp, nonce = nonce userOp, factory = factory userOp,
      factoryData = factoryData userOp, callData = callData userOp,
      maxPriorityFeePerGas = adjustedMaxPriorityFeePerGas,
      maxFeePerGas = adjustedMaxFeePerGas,
      callGasLimit = 0, verificationGasLimit = 0, preVerificationGas = 0,
      signature = ''0x'' @ concat (replicate numSigners placeholderSignature)\<rparr>"

text \<open>The operation returned: the three limits of the bundler's answer, signature empty.\<close>

definition withEstimatedGas :: "UserOperation \<Rightarrow> GasLimits \<Rightarrow> UserOperation" where
  "withEstimatedGas forEstimate gasLimits =
     forEstimate
       \<lparr>callGasLimit := est_callGasLimit gasLimits,
        verificationGasLimit := est_verificationGasLimit gasLimits,
        preVerificationGas := est_preVerificationGas gasLimits,
        signature := ''0x''\<rparr>"

text \<open>The query of the provider's minimum, made only for an Alchemy bundler.\<close>

definition alchemyMaxPriorityFeePerGas :: "world \<Rightarrow> string \<Rightarrow> nat io" where
  "alchemyMaxPriorityFeePerGas w bundlerRPCUrl =
     (if isAlchemyBundler w bundlerRPCUrl
      then andThen (perform (ProviderMinFeeQuery bundlerRPCUrl)
                      (rundler_maxPriorityFeePerGas w bundlerRPCUrl))
             (\<lambda>alchemyHexResult. lift (alchemyFloor alchemyHexResult))
      else ret 0)"

definition estimateUserOp ::
    "world \<Rightarrow> string \<Rightarrow> UserOperation \<Rightarrow> nat \<Rightarrow> number \<Rightarrow> UserOperation io" where
  "estimateUserOp w bundlerRPCUrl userOp numSigners gasFeesMultiplier =
     andThen (perform FeeOracleQuery (estimateFeesPerGas w)) (\<lambda>feesPerGas.
       if falsyFee (oracle_maxFeePerGas feesPerGas) \<or>
          falsyFee (oracle_maxPriorityFeePerGas feesPerGas)
       then logAndExit FeeFetchError
       else if jsLess gasFeesMultiplier (Num 1) then logAndExit InvalidConfig
       else
         andThen (alchemyMaxPriorityFeePerGas w bundlerRPCUrl) (\<lambda>alchemyMax.
         andThen (lift (numberToBigInt (scaledGasFeesMultiplier gasFeesMultiplier))) (\<lambda>scaled.
           (let adjustedMaxFeePerGas =
                  scaleFee (case_option 0 id (oracle_maxFeePerGas feesPerGas)) scaled;
                adjustedMaxPriorityFeePerGasBeforeMin =
                  scaleFee (case_option 0 id (oracle_maxPriorityFeePerGas feesPerGas)) scaled;
                adjustedMaxPriorityFeePerGas =
                  maxBigInt adjustedMaxPriorityFeePerGasBeforeMin alchemyMax;
                forEstimate =
                  partialUserOpForEstimate userOp adjustedMaxPriorityFeePerGas
                    adjustedMaxFeePerGas numSigners
            in andThen (perform (GasEstimation forEstimate)
                          (estimateUserOperationGas w forEstimate))
                 (\<lambda>gasLimits. ret (withEstimatedGas forEstimate gasLimits))))))"

section \<open>The multisig orchestrator: \<^verbatim>\<open>buildAndSignMultisigUserOp\<close>\<close>

record MultiSigParams =
  bundlerRPCUrl :: string
  walletAddress :: hex
  signerAddresses :: "Signer list"
  gasFeesMultiplier :: number
  callData_arg :: hex

text \<open>
  The \<^verbatim>\<open>for\<close> loop, over the indices still to run. Its state is \<^verbatim>\<open>partialUserOpWithGas\<close>
  and the \<^verbatim>\<open>signatures\<close> array. The loop runs only when \<open>numSigners \<ge> 1\<close>, where
  \<open>numSigners - 1\<close> on \<open>nat\<close> is the program's \<^verbatim>\<open>numSigners - 1\<close>.
\<close>

fun signLoop ::
    "world \<Rightarrow> MultiSigParams \<Rightarrow> UserOperation \<Rightarrow> nat \<Rightarrow> nat list \<Rightarrow>
     UserOperation \<Rightarrow> SignatureEntry list \<Rightarrow> (UserOperation \<times> SignatureEntry list) io" where
  "signLoop w p partialUserOp numSigners [] partialUserOpWithGas signatures =
     ret (partialUserOpWithGas, signatures)"
| "signLoop w p partialUserOp numSigners (i # rest) partialUserOpWithGas signatures =
     (let signer = signerAddresses p ! i;
          isLastSigner = (i = numSigners - 1)
      in andThen
           (if isLastSigner
            then estimateUserOp w (bundlerRPCUrl p) partialUserOp numSigners (gasFeesMultiplier p)
            else ret partialUserOp)
           (\<lambda>userOpToSign.
         andThen (signUserOp w signer userOpToSign) (\<lambda>signatureHex.
           signLoop w p partialUserOp numSigners rest userOpToSign
             (signatures @
               [\<lparr>sig_signer = address signer, sig_signature = signatureHex,
                 sig_userOpSigType = (if isLastSigner then Some ''ACTUAL'' else None)\<rparr>]))))"

definition buildAndSignMultisigUserOp :: "world \<Rightarrow> MultiSigParams \<Rightarrow> UserOperation io" where
  "buildAndSignMultisigUserOp w p =
     andThen (getPartialUserOp w (walletAddress p) (callData_arg p)) (\<lambda>partialUserOp.
       (let numSigners = length (signerAddresses p)
        in andThen (signLoop w p partialUserOp numSigners [0..<numSigners] partialUserOp [])
             (\<lambda>(partialUserOpWithGas, signatures).
                lift (buildMultiSigUserOp partialUserOpWithGas signatures))))"

section \<open>The packed layout, in the specification's words\<close>

text \<open>
  A signature entry's role is FINAL when the code tagged it \<^verbatim>\<open>"ACTUAL"\<close>. Its raw signature
  is \<^verbatim>\<open>0x\<close> followed by 130 hex digits: 64 bytes \<open>r\<close>\<open>s\<close> and one byte \<open>v\<close>. The block
  the specification asks for is \<open>r\<close>\<open>s\<close> followed by the one-byte \<open>v\<close>, plus 32 when FINAL.
\<close>

definition isFinal :: "SignatureEntry \<Rightarrow> bool" where
  "isFinal e = (sig_userOpSigType e = Some ''ACTUAL'')"

definition rsPart :: "SignatureEntry \<Rightarrow> string" where
  "rsPart e = take 128 (drop 2 (sig_signature e))"

definition vByte :: "SignatureEntry \<Rightarrow> nat" where
  "vByte e = digitsValue 16 (drop 130 (sig_signature e))"

definition byteHex :: "nat \<Rightarrow> string" where
  "byteHex n = [hexDigit (n div 16), hexDigit n]"

definition adjustedV :: "SignatureEntry \<Rightarrow> nat" where
  "adjustedV e = vByte e + (if isFinal e then 32 else 0)"

definition packedBlock :: "SignatureEntry \<Rightarrow> string" where
  "packedBlock e = rsPart e @ byteHex (adjustedV e)"

definition wellFormedSignature :: "string \<Rightarrow> bool" where
  "wellFormedSignature s =
     (take 2 s = ''0x'' \<and> length s = 132 \<and> list_all isHexDigit (drop 2 s))"

definition wellFormedEntry :: "SignatureEntry \<Rightarrow> bool" where
  "wellFormedEntry e =
     (hexToBigInt (sig_signer e) \<noteq> None \<and>
      wellFormedSignature (sig_signature e) \<and>
      adjustedV e \<le> 255)"

definition sizeHex :: "hex \<Rightarrow> nat" where
  "sizeHex h = (length h - 2 + 1) div 2"

text \<open>
  The base operation of the orchestrator has every gas and fee field zero and an empty
  signature. One signing pass makes two calls: the hash read and the signature. An
  entry is collected with the signer's address and tagged FINAL or not.
\<close>

definition signCalls :: "PackedUserOperation \<Rightarrow> hex \<Rightarrow> Signer \<Rightarrow> call list" where
  "signCalls packed h signer =
     [HashQuery ENTRYPOINT_ADDRESS_V07 packed, SignMessage (privateKey signer) h]"

definition collected :: "Signer \<Rightarrow> string \<Rightarrow> bool \<Rightarrow> SignatureEntry" where
  "collected signer s final =
     \<lparr>sig_signer = address signer, sig_signature = s,
      sig_userOpSigType = (if final then Some ''ACTUAL'' else None)\<rparr>"

definition baseUserOp :: "hex \<Rightarrow> nat \<Rightarrow> hex \<Rightarrow> UserOperation" where
  "baseUserOp a n c =
     \<lparr>sender = a, nonce = n, factory = None, factoryData = None,
      callData = c, maxPriorityFeePerGas = 0, maxFeePerGas = 0,
      callGasLimit = 0, verificationGasLimit = 0, preVerificationGas = 0,
      signature = ''0x''\<rparr>"

section \<open>Concrete inputs\<close>

text \<open>
  The two addresses are those of the specification's ordering scenario; the signatures
  are arbitrary 65-byte values ending in the recovery bytes 27 and 28.
\<close>

definition demoOp :: UserOperation where
  "demoOp = \<lparr>sender = ''0x00000000000000000000000000000000000000aa'', nonce = 5,
     factory = None, factoryData = None, callData = ''0x'',
     maxPriorityFeePerGas = 0, maxFeePerGas = 0, callGasLimit = 0,
     verificationGasLimit = 0, preVerificationGas = 0, signature = ''0x''\<rparr>"

definition scenarioAddressA :: hex where
  "scenarioAddressA = ''0xAAAAAAAAAAAAAAAAAAAAAAAAAAAAAAAAAAAAAAAA''"

definition scenarioAddress1 :: hex where
  "scenarioAddress1 = ''0x1111111111111111111111111111111111111111''"

definition demoSigA :: string where
  "demoSigA =
     ''0xaaaaaaaaaaaaaaaaaaaaaaaaaaaaaaaaaaaaaaaaaaaaaaaaaaaaaaaaaaaaaaaa'' @
     ''bbbbbbbbbbbbbbbbbbbbbbbbbbbbbbbbbbbbbbbbbbbbbbbbbbbbbbbbbbbbbbbb1b''"

definition demoSig1 :: string where
  "demoSig1 =
     ''0xcccccccccccccccccccccccccccccccccccccccccccccccccccccccccccccccc'' @
     ''dddddddddddddddddddddddddddddddddddddddddddddddddddddddddddddddd1c''"

definition demoEntryA :: SignatureEntry where
  "demoEntryA = \<lparr>sig_signer = scenarioAddressA, sig_signature = demoSigA, sig_userOpSigType = None\<rparr>"

definition demoEntry1 :: SignatureEntry where
  "demoEntry1 = \<lparr>sig_signer = scenarioAddress1, sig_signature = demoSig1, sig_userOpSigType = Some ''ACTUAL''\<rparr>"

definition demoEntryShort :: SignatureEntry where
  "demoEntryShort =
     \<lparr>sig_signer = scenarioAddressA, sig_signature = ''0x1234'', sig_userOpSigType = None\<rparr>"

definition demoSigLong :: string where
  "demoSigLong = demoSigA @ ''ff''"

definition demoEntryLong :: SignatureEntry where
  "demoEntryLong = \<lparr>sig_signer = scenarioAddressA, sig_signature = demoSigLong, sig_userOpSigType = None\<rparr>"

text \<open>
  The doubles nearest to 1.2 and to 1.115, as JavaScript reads these literals.
\<close>

definition double_1_2 :: real where
  "double_1_2 = 5404319552844595 / 4503599627370496"

definition double_1_115 :: real where
  "double_1_115 = 5021513584518103 / 4503599627370496"

text \<open>
  A world for the examples: the oracle answers 1000 and 100, the bundler answers fixed
  limits, the entry point tells the base operation from the estimated one, and the two
  signers return the signatures above. The variants change one answer each.
\<close>

definition demoGasLimits :: GasLimits where
  "demoGasLimits =
     \<lparr>est_callGasLimit = 50000, est_verificationGasLimit = 60000, est_preVerificationGas = 46680\<rparr>"

definition demoUrl :: string where
  "demoUrl = ''https://bundler.example/rpc''"

definition alchemyUrl :: string where
  "alchemyUrl = ''https://eth-sepolia.g.alchemy.com/v2/key''"

definition demoWorld :: world where
  "demoWorld =
     \<lparr>getAccountNonce = (\<lambda>a. Inr 5),
      estimateFeesPerGas =
        Inr \<lparr>oracle_maxFeePerGas = Some 1000, oracle_maxPriorityFeePerGas = Some 100\<rparr>,
      isAlchemyBundler = (\<lambda>url. url = alchemyUrl),
      rundler_maxPriorityFeePerGas = (\<lambda>url. Inr None),
      estimateUserOperationGas = (\<lambda>userOp. Inr demoGasLimits),
      readContract_getUserOpHash =
        (\<lambda>entryPoint packed. Inr (if packed_preVerificationGas packed = 0 then ''0x01'' else ''0x02'')),
      signMessage = (\<lambda>key h. Inr (if key = ''keyA'' then demoSigA else demoSig1))\<rparr>"

definition offlineWorld :: world where
  "offlineWorld = demoWorld\<lparr>estimateFeesPerGas := Inl (ExternalError ''fetch failed'')\<rparr>"

definition zeroFeeWorld :: world where
  "zeroFeeWorld =
     demoWorld\<lparr>estimateFeesPerGas :=
       Inr \<lparr>oracle_maxFeePerGas = Some 0, oracle_maxPriorityFeePerGas = Some 100\<rparr>\<rparr>"

definition alchemyDown :: world where
  "alchemyDown =
     demoWorld\<lparr>rundler_maxPriorityFeePerGas := (\<lambda>url. Inl (ExternalError ''fetch failed''))\<rparr>"

definition alchemyAnswers :: world where
  "alchemyAnswers = demoWorld\<lparr>rundler_maxPriorityFeePerGas := (\<lambda>url. Inr (Some ''0x1f4''))\<rparr>"

definition signerA :: Signer where
  "signerA = \<lparr>address = scenarioAddressA, privateKey = ''keyA''\<rparr>"

definition signer1 :: Signer where
  "signer1 = \<lparr>address = scenarioAddress1, privateKey = ''key1''\<rparr>"

definition demoParams :: MultiSigParams where
  "demoParams =
     \<lparr>bundlerRPCUrl = demoUrl, walletAddress = ''0x00000000000000000000000000000000000000aa'',
      signerAddresses = [signerA, signer1], gasFeesMultiplier = Num double_1_2,
      callData_arg = ''0x''\<rparr>"

section \<open>Properties of the hex helpers\<close>

lemma lt16_cases:
  "(m::nat) < 16 \<Longrightarrow> m = 0 \<or> m = 1 \<or> m = 2 \<or> m = 3 \<or> m = 4 \<or> m = 5 \<or> m = 6 \<or> m = 7 \<or>
     m = 8 \<or> m = 9 \<or> m = 10 \<or> m = 11 \<or> m = 12 \<or> m = 13 \<or> m = 14 \<or> m = 15"
  by arith

lemma hexDigitValue_hexDigit: "hexDigitValue (hexDigit n) = Some (n mod 16)"
proof -
  have "n mod 16 < 16" by simp
  from lt16_cases [OF this] show ?thesis
    by (elim disjE) (simp_all add: hexDigit_def hexDigitValue_def)
qed

lemma isHexDigit_hexDigit: "isHexDigit (hexDigit n)"
  by (simp add: isHexDigit_def hexDigitValue_hexDigit)

lemma digitsValue_byteHex: "n < 256 \<Longrightarrow> digitsValue 16 (byteHex n) = n"
  by (simp add: digitsValue_def byteHex_def digitOr0_def hexDigitValue_hexDigit)

lemma remove0x_prefixed: "remove0x (''0x'' @ s) = s"
  by simp

lemma numberToHex_byte: "v \<le> 255 \<Longrightarrow> numberToHex (Some v) (Some 1) = Inr (''0x'' @ byteHex v)"
proof (cases "v < 16")
  case True
  then show ?thesis
    by (simp add: numberToHex_def padHex_def toString16.simps byteHex_def hexDigit_def)
next
  case False
  assume "v \<le> 255"
  with False have "v div 16 < 16" by simp
  with False \<open>v \<le> 255\<close> show ?thesis
    by (simp add: numberToHex_def padHex_def toString16.simps [of v] toString16.simps [of "v div 16"] byteHex_def)
qed

section \<open>The packer on well-formed entries\<close>

lemma takeWhile_all: "list_all P xs \<Longrightarrow> takeWhile P xs = xs"
  by (induction xs) auto

lemma parseInt_hex: "ds \<noteq> [] \<Longrightarrow> list_all isHexDigit ds \<Longrightarrow> parseInt (''0x'' @ ds) = Some (digitsValue 16 ds)"
  by (simp add: parseInt_def takeWhile_all)

lemma packEntry_wellFormedSignature:
  assumes "wellFormedSignature (sig_signature e)" and v: "adjustedV e \<le> 255"
  shows "packEntry e = Inr (packedBlock e)"
proof -
  let ?s = "sig_signature e"
  from assms have len: "length ?s = 132" and hx: "list_all isHexDigit (drop 2 ?s)"
    by (simp_all add: wellFormedSignature_def)
  have tail: "takeBytes ?s (Some 64) (Some 1) = ''0x'' @ drop 130 ?s"
    using len by (simp add: takeBytes_def slice_def)
  have hd: "takeBytes ?s None (Some 64) = ''0x'' @ rsPart e"
    by (simp add: takeBytes_def slice_def rsPart_def numeral_2_eq_2)
  have "drop 130 ?s = drop 128 (drop 2 ?s)" by simp
  with hx have hx2: "list_all isHexDigit (drop 130 ?s)"
    by (metis list_all_iff set_drop_subset subsetD)
  have ne: "drop 130 ?s \<noteq> []" using len by simp
  have p: "parseInt (takeBytes ?s (Some 64) (Some 1)) = Some (vByte e)"
    unfolding tail vByte_def by (rule parseInt_hex [OF ne hx2])
  have pv: "map_option (\<lambda>n. n + (if sig_userOpSigType e = Some ''ACTUAL'' then 32 else 0))
              (parseInt (takeBytes ?s (Some 64) (Some 1))) = Some (adjustedV e)"
    by (simp add: p adjustedV_def isFinal_def del: One_nat_def)
  show ?thesis
    unfolding packEntry_def Let_def pv numberToHex_byte [OF v] hd
    by (simp add: concatHex_def packedBlock_def)
qed

lemma packEntry_wellFormed:
  "wellFormedEntry e \<Longrightarrow> packEntry e = Inr (packedBlock e)"
  by (simp add: wellFormedEntry_def packEntry_wellFormedSignature)

lemma packEntry_overflow:
  assumes "wellFormedSignature (sig_signature e)" and v: "\<not> adjustedV e \<le> 255"
  shows "packEntry e = Inl IntegerOutOfRangeError"
proof -
  let ?s = "sig_signature e"
  from assms have len: "length ?s = 132" and hx: "list_all isHexDigit (drop 2 ?s)"
    by (simp_all add: wellFormedSignature_def)
  have tail: "takeBytes ?s (Some 64) (Some 1) = ''0x'' @ drop 130 ?s"
    using len by (simp add: takeBytes_def slice_def)
  have "drop 130 ?s = drop 128 (drop 2 ?s)" by simp
  with hx have hx2: "list_all isHexDigit (drop 130 ?s)"
    by (metis list_all_iff set_drop_subset subsetD)
  have ne: "drop 130 ?s \<noteq> []" using len by simp
  have p: "parseInt (takeBytes ?s (Some 64) (Some 1)) = Some (vByte e)"
    unfolding tail vByte_def by (rule parseInt_hex [OF ne hx2])
  have pv: "map_option (\<lambda>n. n + (if sig_userOpSigType e = Some ''ACTUAL'' then 32 else 0))
              (parseInt (takeBytes ?s (Some 64) (Some 1))) = Some (adjustedV e)"
    by (simp add: p adjustedV_def isFinal_def del: One_nat_def)
  from v have "numberToHex (Some (adjustedV e)) (Some 1) = Inl IntegerOutOfRangeError"
    by (simp add: numberToHex_def)
  then show ?thesis
    unfolding packEntry_def Let_def pv by simp
qed

lemma forEachSig_wellFormed:
  "list_all wellFormedEntry es \<Longrightarrow> forEachSig es acc = Inr (acc @ concat (map packedBlock es))"
  by (induction es arbitrary: acc) (simp_all add: packEntry_wellFormed)

lemma sortBySigner_wellFormed:
  "list_all wellFormedEntry es \<Longrightarrow> sortBySigner es = Inr (sort_key signerKey es)"
proof (cases "length es \<le> 1")
  case True
  then have "es = [] \<or> (\<exists>x. es = [x])"
    by (cases es) (auto simp: length_Suc_conv)
  then show ?thesis by (auto simp: sortBySigner_def)
next
  case False
  assume "list_all wellFormedEntry es"
  then have "list_all (\<lambda>s. hexToBigInt (sig_signer s) \<noteq> None) es"
    by (simp add: list_all_iff wellFormedEntry_def)
  with False show ?thesis by (simp add: sortBySigner_def)
qed

lemma length_packedBlock: "wellFormedEntry e \<Longrightarrow> length (packedBlock e) = 130"
  by (simp add: packedBlock_def rsPart_def byteHex_def wellFormedEntry_def wellFormedSignature_def)

lemma length_concat_blocks:
  "list_all wellFormedEntry es \<Longrightarrow> length (concat (map packedBlock es)) = 130 * length es"
  by (induction es) (simp_all add: length_packedBlock)

section \<open>Evaluating the concrete inputs\<close>

lemmas hex_eval = hexToBigInt_def stringToBigInt_def digitsValue_def digitOr0_def
  isHexDigit_def hexDigitValue_def

lemma wfA: "wellFormedEntry demoEntryA"
  by (simp add: wellFormedEntry_def wellFormedSignature_def demoEntryA_def demoSigA_def
      scenarioAddressA_def adjustedV_def
      vByte_def isFinal_def hex_eval)
lemma wf1: "wellFormedEntry demoEntry1"
  by (simp add: wellFormedEntry_def wellFormedSignature_def demoEntry1_def demoSig1_def
      scenarioAddress1_def adjustedV_def
      vByte_def isFinal_def hex_eval)
lemma kA: "signerKey demoEntryA = 974334424887268612135789888477522013103955028650"
  by (simp add: signerKey_def demoEntryA_def scenarioAddressA_def hex_eval)
lemma k1: "signerKey demoEntry1 = 97433442488726861213578988847752201310395502865"
  by (simp add: signerKey_def demoEntry1_def scenarioAddress1_def hex_eval)

section \<open>Layout and length of the packed signature\<close>

text \<open>
  C1. Whenever every entry is well formed (a parsable signer address, a raw signature of
  exactly 65 bytes, and a recovery byte that still fits one byte after the role offset),
  the pack operation succeeds and the signature field is \<^verbatim>\<open>0x\<close> followed by one block per
  entry, in ascending order of the signer address read as an unsigned integer. Each
  block is 65 bytes: the entry's 64 bytes \<open>r\<close>\<open>s\<close> and one byte holding \<open>v\<close>, with 32 added
  exactly when the entry is FINAL. The packed signature is \<open>65 * N\<close> bytes long. The
  statement also covers \<open>N = 0\<close>.
\<close>

theorem pack_layout:
  assumes "\<forall>e \<in> set signatures. wellFormedEntry e"
  shows "\<exists>packed.
           buildMultiSigUserOp userOp signatures = Inr (userOp\<lparr>signature := packed\<rparr>) \<and>
           packed = ''0x'' @ concat (map packedBlock (sort_key signerKey signatures)) \<and>
           sorted (map signerKey (sort_key signerKey signatures)) \<and>
           mset (sort_key signerKey signatures) = mset signatures \<and>
           (\<forall>e \<in> set signatures.
              length (packedBlock e) = 130 \<and>
              take 128 (packedBlock e) = rsPart e \<and>
              digitsValue 16 (drop 128 (packedBlock e)) = vByte e + (if isFinal e then 32 else 0)) \<and>
           length packed = 2 + 130 * length signatures \<and>
           sizeHex packed = 65 * length signatures"
proof -
  from assms have wf: "list_all wellFormedEntry signatures"
    by (simp add: list_all_iff)
  then have wfs: "list_all wellFormedEntry (sort_key signerKey signatures)"
    by (simp add: list_all_iff)
  let ?packed = "''0x'' @ concat (map packedBlock (sort_key signerKey signatures))"
  have run: "buildMultiSigUserOp userOp signatures = Inr (userOp\<lparr>signature := ?packed\<rparr>)"
    by (simp add: buildMultiSigUserOp_def sortBySigner_wellFormed [OF wf]
        forEachSig_wellFormed [OF wfs])
  have blocks: "\<forall>e \<in> set signatures.
      length (packedBlock e) = 130 \<and> take 128 (packedBlock e) = rsPart e \<and>
      digitsValue 16 (drop 128 (packedBlock e)) = vByte e + (if isFinal e then 32 else 0)"
  proof
    fix e assume "e \<in> set signatures"
    with assms have w: "wellFormedEntry e" by blast
    then have l: "length (rsPart e) = 128" and v: "adjustedV e < 256"
      by (simp_all add: wellFormedEntry_def wellFormedSignature_def rsPart_def)
    show "length (packedBlock e) = 130 \<and> take 128 (packedBlock e) = rsPart e \<and>
      digitsValue 16 (drop 128 (packedBlock e)) = vByte e + (if isFinal e then 32 else 0)"
      using l digitsValue_byteHex [OF v] length_packedBlock [OF w]
      by (simp add: packedBlock_def adjustedV_def)
  qed
  have len: "length ?packed = 2 + 130 * length signatures"
    using length_concat_blocks [OF wfs] by simp
  then have "sizeHex ?packed = 65 * length signatures"
    by (simp add: sizeHex_def)
  with run blocks len show ?thesis by simp
qed

theorem pack_layout_witness:
  "\<exists>r. buildMultiSigUserOp demoOp [demoEntryA, demoEntry1] = Inr r \<and>
       sizeHex (signature r) = 130 \<and>
       signature r = ''0x'' @ packedBlock demoEntry1 @ packedBlock demoEntryA"
proof -
  have wf: "\<forall>e \<in> set [demoEntryA, demoEntry1]. wellFormedEntry e"
    by (simp add: wfA wf1)
  have k: "signerKey demoEntry1 < signerKey demoEntryA" by (simp add: kA k1)
  from pack_layout [OF wf, of demoOp] obtain packed where
    r: "buildMultiSigUserOp demoOp [demoEntryA, demoEntry1] = Inr (demoOp\<lparr>signature := packed\<rparr>)"
    and p: "packed = ''0x'' @ concat (map packedBlock (sort_key signerKey [demoEntryA, demoEntry1]))"
    and s: "sizeHex packed = 65 * length [demoEntryA, demoEntry1]"
    by blast
  from k p have "packed = ''0x'' @ packedBlock demoEntry1 @ packedBlock demoEntryA"
    by simp
  with r s show ?thesis by simp
qed

section \<open>Independence of the input order\<close>

lemma filter_key_distinct:
  "distinct (map f zs) \<Longrightarrow> k \<in> set zs \<Longrightarrow> filter (\<lambda>x. f k = f x) zs = [k]"
proof (induction zs)
  case Nil
  then show ?case by simp
next
  case (Cons z zs)
  show ?case
  proof (cases "k = z")
    case True
    from Cons.prems(1) have "\<forall>x \<in> set zs. f z \<noteq> f x" by auto
    then have "filter (\<lambda>x. f z = f x) zs = []" by (simp add: filter_empty_conv)
    with True show ?thesis by simp
  next
    case False
    with Cons.prems have k: "k \<in> set zs" and d: "distinct (map f zs)" and "f z \<notin> f ` set zs"
      by auto
    then have "f k \<noteq> f z" by (metis imageI)
    with Cons.IH [OF d k] show ?thesis by simp
  qed
qed

lemma sort_key_perm_distinct:
  assumes "mset xs = mset ys" and "distinct (map f xs)"
  shows "sort_key f xs = sort_key f ys"
proof (rule properties_for_sort_key)
  show "mset (sort_key f ys) = mset xs" using assms(1) by simp
  show "sorted (map f (sort_key f ys))" by simp
  fix k assume k: "k \<in> set (sort_key f ys)"
  have "mset (map f (sort_key f ys)) = mset (map f xs)"
    using assms(1) by simp
  with assms(2) have d: "distinct (map f (sort_key f ys))"
    by (metis mset_eq_imp_distinct_iff)
  from k assms(1) have kx: "k \<in> set xs"
    by (metis mset_eq_setD set_sort)
  show "filter (\<lambda>x. f k = f x) (sort_key f ys) = filter (\<lambda>x. f k = f x) xs"
    by (simp add: filter_key_distinct [OF d k] filter_key_distinct [OF assms(2) kx])
qed

lemma sortBySigner_perm:
  assumes "mset es1 = mset es2" and "distinct (map signerKey es1)"
  shows "sortBySigner es1 = sortBySigner es2"
proof -
  from assms(1) have l: "length es1 = length es2"
    by (metis size_mset)
  from assms(1) have s: "set es1 = set es2"
    by (rule mset_eq_setD)
  show ?thesis
  proof (cases "length es1 \<le> 1")
    case True
    with l assms(1) have "es1 = es2"
      by (cases es1; cases es2) auto
    then show ?thesis by simp
  next
    case False
    with l s show ?thesis
      by (simp add: sortBySigner_def list_all_iff sort_key_perm_distinct [OF assms])
  qed
qed

text \<open>
  C7. Two input orders of the same entries, whose signer addresses are hex literals and
  pairwise distinct as unsigned integers, give the same result. With signers
  \<^verbatim>\<open>0xAAA...\<close> and \<^verbatim>\<open>0x111...\<close> the block of \<^verbatim>\<open>0x111...\<close> comes first whichever entry is
  presented first.
\<close>

theorem pack_order_independent:
  assumes "mset es1 = mset es2" and "distinct (map signerKey es1)"
    and "\<forall>e \<in> set es1. hexToBigInt (sig_signer e) \<noteq> None"
  shows "buildMultiSigUserOp userOp es1 = buildMultiSigUserOp userOp es2 \<and>
         (wellFormedEntry a \<and> wellFormedEntry b \<and>
          sig_signer a = scenarioAddressA \<and> sig_signer b = scenarioAddress1 \<longrightarrow>
            buildMultiSigUserOp userOp [a, b] =
              Inr (userOp\<lparr>signature := ''0x'' @ packedBlock b @ packedBlock a\<rparr>) \<and>
            buildMultiSigUserOp userOp [b, a] =
              Inr (userOp\<lparr>signature := ''0x'' @ packedBlock b @ packedBlock a\<rparr>))"
proof (intro conjI impI)
  show "buildMultiSigUserOp userOp es1 = buildMultiSigUserOp userOp es2"
    by (simp add: buildMultiSigUserOp_def sortBySigner_perm [OF assms(1,2)])
next
  assume h: "wellFormedEntry a \<and> wellFormedEntry b \<and>
          sig_signer a = scenarioAddressA \<and> sig_signer b = scenarioAddress1"
  then have ka: "signerKey a = 974334424887268612135789888477522013103955028650"
    and kb: "signerKey b = 97433442488726861213578988847752201310395502865"
    by (simp_all add: signerKey_def scenarioAddressA_def scenarioAddress1_def hex_eval)
  from h have wab: "list_all wellFormedEntry [a, b]" and wba: "list_all wellFormedEntry [b, a]"
    by simp_all
  have sab: "sort_key signerKey [a, b] = [b, a]" and sba: "sort_key signerKey [b, a] = [b, a]"
    by (simp_all add: ka kb)
  have fe: "forEachSig [b, a] [] = Inr (packedBlock b @ packedBlock a)"
    using forEachSig_wellFormed [OF wba, of "[]"] by simp
  show "buildMultiSigUserOp userOp [a, b] =
              Inr (userOp\<lparr>signature := ''0x'' @ packedBlock b @ packedBlock a\<rparr>)"
    by (simp add: buildMultiSigUserOp_def sortBySigner_wellFormed [OF wab] sab fe
        del: sort_key_simps forEachSig.simps)
  show "buildMultiSigUserOp userOp [b, a] =
              Inr (userOp\<lparr>signature := ''0x'' @ packedBlock b @ packedBlock a\<rparr>)"
    by (simp add: buildMultiSigUserOp_def sortBySigner_wellFormed [OF wba] sba fe
        del: sort_key_simps forEachSig.simps)
qed

theorem pack_order_independent_witness:
  "buildMultiSigUserOp demoOp [demoEntryA, demoEntry1] =
     buildMultiSigUserOp demoOp [demoEntry1, demoEntryA] \<and>
   buildMultiSigUserOp demoOp [demoEntry1, demoEntryA] =
     Inr (demoOp\<lparr>signature := ''0x'' @ packedBlock demoEntry1 @ packedBlock demoEntryA\<rparr>)"
proof -
  have m: "mset [demoEntryA, demoEntry1] = mset [demoEntry1, demoEntryA]" by simp
  have d: "distinct (map signerKey [demoEntryA, demoEntry1])" by (simp add: kA k1)
  have s: "sig_signer demoEntryA = scenarioAddressA" "sig_signer demoEntry1 = scenarioAddress1"
    by (simp_all add: demoEntryA_def demoEntry1_def)
  have h: "\<forall>e \<in> set [demoEntryA, demoEntry1]. hexToBigInt (sig_signer e) \<noteq> None"
    using wfA wf1 by (simp add: wellFormedEntry_def)
  from pack_order_independent [OF m d h, of demoOp demoEntryA demoEntry1] wfA wf1 s
  show ?thesis by blast
qed

section \<open>Raw signatures of the wrong length\<close>

lemma packEntry_short:
  assumes "length (sig_signature e) \<le> 130"
  shows "packEntry e = Inl RangeError"
proof -
  have "takeBytes (sig_signature e) (Some 64) (Some 1) = ''0x''"
    using assms by (simp add: takeBytes_def slice_def)
  then have "parseInt (takeBytes (sig_signature e) (Some 64) (Some 1)) = None"
    by (simp add: parseInt_def)
  then show ?thesis
    by (simp add: packEntry_def numberToHex_def)
qed

lemma forEachSig_fails:
  "e \<in> set es \<Longrightarrow> packEntry e = Inl err \<Longrightarrow> isl (forEachSig es acc)"
  by (induction es arbitrary: acc) (auto split: sum.splits)

lemma sortBySigner_set: "sortBySigner es = Inr ss \<Longrightarrow> set ss = set es"
  by (auto simp: sortBySigner_def split: if_splits)

lemma packEntry_truncates:
  assumes "length s = 132"
  shows "packEntry (e\<lparr>sig_signature := s @ extra\<rparr>) = packEntry (e\<lparr>sig_signature := s\<rparr>)"
proof -
  have "takeBytes (s @ extra) (Some 64) (Some 1) = takeBytes s (Some 64) (Some 1)"
    and "takeBytes (s @ extra) None (Some 64) = takeBytes s None (Some 64)"
    using assms by (simp_all add: takeBytes_def slice_def)
  then show ?thesis by (simp add: packEntry_def cong: sum.case_cong)
qed

text \<open>
  C8, as the code has it. A raw signature of at most 64 bytes has no byte at offset 64:
  the recovery byte reads as \<^verbatim>\<open>NaN\<close> and the pack operation fails (alone in the list, with the
  runtime's \<^verbatim>\<open>RangeError\<close>). A raw signature longer than 65 bytes is not rejected: what
  follows its 65th byte is ignored.
\<close>

theorem pack_malformed_length:
  "(e \<in> set signatures \<and> length (sig_signature e) \<le> 130 \<longrightarrow>
      isl (buildMultiSigUserOp userOp signatures)) \<and>
   (length (sig_signature e) \<le> 130 \<longrightarrow> buildMultiSigUserOp userOp [e] = Inl RangeError) \<and>
   (length s = 132 \<longrightarrow>
      buildMultiSigUserOp userOp [e\<lparr>sig_signature := s @ extra\<rparr>] =
      buildMultiSigUserOp userOp [e\<lparr>sig_signature := s\<rparr>])"
proof (intro conjI impI)
  assume h: "e \<in> set signatures \<and> length (sig_signature e) \<le> 130"
  then have p: "packEntry e = Inl RangeError" by (simp add: packEntry_short)
  show "isl (buildMultiSigUserOp userOp signatures)"
  proof (cases "sortBySigner signatures")
    case (Inl err)
    then show ?thesis by (simp add: buildMultiSigUserOp_def)
  next
    case (Inr ss)
    with h have "e \<in> set ss" by (simp add: sortBySigner_set)
    from forEachSig_fails [OF this p, of "[]"] obtain err where "forEachSig ss [] = Inl err"
      by (cases "forEachSig ss []") auto
    with Inr show ?thesis
      by (simp add: buildMultiSigUserOp_def)
  qed
next
  assume "length (sig_signature e) \<le> 130"
  then show "buildMultiSigUserOp userOp [e] = Inl RangeError"
    by (simp add: buildMultiSigUserOp_def sortBySigner_def packEntry_short)
next
  assume "length s = 132"
  then show "buildMultiSigUserOp userOp [e\<lparr>sig_signature := s @ extra\<rparr>] =
      buildMultiSigUserOp userOp [e\<lparr>sig_signature := s\<rparr>]"
    by (simp add: buildMultiSigUserOp_def sortBySigner_def packEntry_truncates)
qed

theorem pack_malformed_length_witness:
  "buildMultiSigUserOp demoOp [demoEntryShort] = Inl RangeError \<and>
   isl (buildMultiSigUserOp demoOp [demoEntry1, demoEntryShort]) \<and>
   buildMultiSigUserOp demoOp [demoEntryA\<lparr>sig_signature := demoSigA @ ''ff''\<rparr>] =
     buildMultiSigUserOp demoOp [demoEntryA\<lparr>sig_signature := demoSigA\<rparr>]"
proof -
  have l: "length (sig_signature demoEntryShort) \<le> 130"
    by (simp add: demoEntryShort_def)
  have m: "demoEntryShort \<in> set [demoEntry1, demoEntryShort]" by simp
  have a: "length demoSigA = 132" by (simp add: demoSigA_def)
  from pack_malformed_length [of demoEntryShort "[demoEntry1, demoEntryShort]" demoOp demoSigA "''ff''"]
    l m a
  have "isl (buildMultiSigUserOp demoOp [demoEntry1, demoEntryShort])"
    and "buildMultiSigUserOp demoOp [demoEntryShort] = Inl RangeError"
    by blast+
  moreover from pack_malformed_length [of demoEntryA "[]" demoOp demoSigA "''ff''"] a
  have "buildMultiSigUserOp demoOp [demoEntryA\<lparr>sig_signature := demoSigA @ ''ff''\<rparr>] =
     buildMultiSigUserOp demoOp [demoEntryA\<lparr>sig_signature := demoSigA\<rparr>]"
    by blast
  ultimately show ?thesis by blast
qed

text \<open>
  C8 as stated fails: a raw signature of 66 bytes is packed, from its first 65 bytes.
\<close>

theorem pack_accepts_66_bytes:
  "sizeHex (sig_signature demoEntryLong) = 66 \<and>
   buildMultiSigUserOp demoOp [demoEntryLong] =
     Inr (demoOp\<lparr>signature := demoSigA\<rparr>)"
  by (simp add: sizeHex_def demoEntryLong_def demoSigLong_def demoSigA_def
      buildMultiSigUserOp_def sortBySigner_def packEntry_def takeBytes_def slice_def
      parseInt_def numberToHex_def padHex_def concatHex_def toString16.simps hexDigit_def
      digitsValue_def digitOr0_def isHexDigit_def hexDigitValue_def)

section \<open>Awaited computations\<close>

lemma andThen_Inl: "andThen (t, Inl e) f = (t, Inl e)"
  by (simp add: andThen_def)

lemma andThen_Inr: "andThen (t, Inr x) f = (t @ fst (f x), snd (f x))"
  by (simp add: andThen_def split: prod.splits)

lemma andThen_split:
  "andThen m f =
     (case snd m of Inl e \<Rightarrow> (fst m, Inl e) | Inr x \<Rightarrow> (fst m @ fst (f x), snd (f x)))"
  by (cases m; cases "snd m") (auto simp: andThen_def split: prod.splits)

lemmas io_simps = andThen_Inl andThen_Inr perform_def ret_def lift_def logAndExit_def

lemma andThen_success:
  assumes "andThen m f = (t, Inr y)"
  obtains t1 x t2 where "m = (t1, Inr x)" and "f x = (t2, Inr y)" and "t = t1 @ t2"
proof (cases m)
  case (Pair t1 r)
  show ?thesis
  proof (cases r)
    case (Inl e)
    with Pair assms show ?thesis by (simp add: andThen_Inl)
  next
    case (Inr x)
    with Pair assms have "snd (f x) = Inr y" and "t = t1 @ fst (f x)"
      by (auto simp: andThen_Inr)
    then have "f x = (fst (f x), Inr y)" and "t = t1 @ fst (f x)"
      by (simp_all add: prod_eq_iff)
    with Pair Inr that show ?thesis by blast
  qed
qed

section \<open>Rounding to doubles\<close>

lemma roundHalfEven_ge_floor: "\<lfloor>y\<rfloor> \<le> roundHalfEven y"
  by (simp add: roundHalfEven_def Let_def)

lemma roundHalfEven_ge:
  assumes "of_int k \<le> y"
  shows "k \<le> roundHalfEven y"
proof -
  from assms have "k \<le> \<lfloor>y\<rfloor>" by (simp add: le_floor_iff)
  with roundHalfEven_ge_floor [of y] show ?thesis by linarith
qed

lemma roundToDouble_nonneg:
  assumes "0 \<le> x"
  shows "roundToDouble x = PosInfinity \<or> (\<exists>v. roundToDouble x = Num v \<and> 0 \<le> v)"
proof (cases "x = 0")
  case True
  then show ?thesis by (simp add: roundToDouble_def)
next
  case False
  with assms have pos: "0 < x" by simp
  define e where "e = ulpExponent x"
  have "of_int 0 \<le> x / 2 powi e" using assms by simp
  then have "0 \<le> roundHalfEven (x / 2 powi e)"
    by (rule roundHalfEven_ge)
  then have "0 \<le> of_int (roundHalfEven (x / 2 powi e)) * (2::real) powi e"
    by simp
  with pos False show ?thesis
    by (simp add: roundToDouble_def Let_def e_def)
qed

lemma roundToDouble_ge_int:
  assumes k: "1 \<le> k" and kb: "k \<le> 2 ^ 53" and x: "of_int k \<le> x"
  shows "roundToDouble x = PosInfinity \<or> (\<exists>v. roundToDouble x = Num v \<and> of_int k \<le> v)"
proof -
  from k x have x1: "1 \<le> x" by linarith
  then have pos: "0 < x" and ne: "x \<noteq> 0" by simp_all
  have fl: "0 < \<lfloor>x\<rfloor>" using x1 by simp
  define E where "E = bitlen \<lfloor>x\<rfloor> - 1"
  from bitlen_bounds [OF fl] have lo: "2 ^ nat E \<le> \<lfloor>x\<rfloor>" by (simp add: E_def)
  from fl have E0: "0 \<le> E"
    using bitlen_eq_zero_iff [of "\<lfloor>x\<rfloor>"] bitlen_nonneg [of "\<lfloor>x\<rfloor>"]
    unfolding E_def by linarith
  have b: "binade x = E" using x1 by (simp add: binade_def E_def)
  define e where "e = E - 52"
  have ue: "ulpExponent x = e" using E0 by (simp add: ulpExponent_def b e_def)
  define n where "n = roundHalfEven (x / 2 powi e)"
  have v: "of_int k \<le> of_int n * (2::real) powi e"
  proof (cases "e \<le> 0")
    case True
    define j where "j = nat (- e)"
    then have ej: "e = - int j" using True by simp
    have p: "(2::real) powi e = 1 / 2 ^ j"
      unfolding ej by (simp add: power_int_minus_divide)
    have "real_of_int (k * 2 ^ j) \<le> x * 2 ^ j" using x by simp
    then have "real_of_int (k * 2 ^ j) \<le> x / 2 powi e" by (simp add: p)
    then have "k * 2 ^ j \<le> n" unfolding n_def by (rule roundHalfEven_ge)
    then have "real_of_int (k * 2 ^ j) \<le> of_int n" by (simp only: of_int_le_iff)
    then have "real_of_int k \<le> of_int n / 2 ^ j"
      by (simp add: pos_le_divide_eq)
    then show ?thesis by (simp add: p)
  next
    case False
    define j where "j = nat e"
    then have ej: "e = int j" using False by simp
    have p: "(2::real) powi e = 2 ^ j" unfolding ej by simp
    have E: "nat E = j + 52" using False j_def e_def by simp
    from lo have "real_of_int (2 ^ nat E) \<le> of_int \<lfloor>x\<rfloor>"
      by (simp only: of_int_le_iff)
    also have "\<dots> \<le> x" by simp
    finally have "(2::real) ^ 52 * 2 ^ j \<le> x" by (simp add: E power_add mult.commute)
    then have "real_of_int (2 ^ 52) \<le> x / 2 ^ j"
      by (simp add: pos_le_divide_eq)
    then have "real_of_int (2 ^ 52) \<le> x / 2 powi e" by (simp add: p)
    then have n: "2 ^ 52 \<le> n" unfolding n_def by (rule roundHalfEven_ge)
    have big: "real_of_int (2 ^ 52) \<le> of_int n" using n by (simp only: of_int_le_iff)
    from False ej have "1 \<le> j" by simp
    then have "(2::real) ^ 1 \<le> 2 ^ j" by (intro power_increasing) simp_all
    with big have "(2::real) ^ 52 * 2 ^ 1 \<le> of_int n * 2 ^ j"
      by (intro mult_mono) simp_all
    then have "(2::real) ^ 53 \<le> of_int n * 2 ^ j" by simp
    moreover from kb have "real_of_int k \<le> of_int (2 ^ 53)" by (simp only: of_int_le_iff)
    ultimately show ?thesis by (simp add: p)
  qed
  show ?thesis
    using v pos ne by (simp add: roundToDouble_def Let_def ue n_def)
qed

lemma scaled_at_least_100:
  assumes "\<not> jsLess m (Num 1)"
    and "numberToBigInt (scaledGasFeesMultiplier m) = Inr k"
  shows "100 \<le> k"
proof (cases m)
  case (Num v)
  with assms(1) have v: "0 \<le> v - 1" by simp
  have s: "jsSubtract m (Num 1) = roundToDouble (v - 1)"
    by (simp add: Num jsSubtract_def)
  from assms(2) have k: "numberToBigInt (jsAdd (Num 100)
      (Math_round (jsMultiply (roundToDouble (v - 1)) (Num 100)))) = Inr k"
    by (simp add: scaledGasFeesMultiplier_def percentageIncrease_def s)
  from roundToDouble_nonneg [OF v] show ?thesis
  proof
    assume "roundToDouble (v - 1) = PosInfinity"
    with k show ?thesis by (simp add: signedInfinity_def)
  next
    assume "\<exists>a. roundToDouble (v - 1) = Num a \<and> 0 \<le> a"
    then obtain a where a: "roundToDouble (v - 1) = Num a" "0 \<le> a" by blast
    then have a100: "0 \<le> a * 100" by simp
    from roundToDouble_nonneg [OF a100] show ?thesis
    proof
      assume "roundToDouble (a * 100) = PosInfinity"
      with k a show ?thesis by simp
    next
      assume "\<exists>b. roundToDouble (a * 100) = Num b \<and> 0 \<le> b"
      then obtain b where b: "roundToDouble (a * 100) = Num b" "0 \<le> b" by blast
      define p where "p = \<lfloor>b + 1 / 2\<rfloor>"
      from b(2) have p0: "0 \<le> p" by (simp add: p_def)
      from k a b have k': "numberToBigInt (roundToDouble (100 + of_int p)) = Inr k"
        by (simp add: p_def)
      have c: "real_of_int 100 \<le> 100 + of_int p" using p0 by simp
      have "roundToDouble (100 + of_int p) = PosInfinity \<or>
            (\<exists>v. roundToDouble (100 + of_int p) = Num v \<and> real_of_int 100 \<le> v)"
        by (rule roundToDouble_ge_int [OF _ _ c]) simp_all
      then show ?thesis
      proof
        assume "roundToDouble (100 + of_int p) = PosInfinity"
        with k' show ?thesis by simp
      next
        assume "\<exists>v. roundToDouble (100 + of_int p) = Num v \<and> real_of_int 100 \<le> v"
        then obtain c where c: "roundToDouble (100 + of_int p) = Num c" "100 \<le> c" by auto
        with k' have "k = \<lfloor>c\<rfloor>" by (simp split: if_splits)
        with c(2) show ?thesis by (simp add: le_floor_iff)
      qed
    qed
  qed
next
  case PosInfinity
  with assms(2) show ?thesis
    by (simp add: scaledGasFeesMultiplier_def percentageIncrease_def jsSubtract_def
        signedInfinity_def)
next
  case NegInfinity
  with assms(1) show ?thesis by simp
next
  case NaN
  with assms(2) show ?thesis
    by (simp add: scaledGasFeesMultiplier_def percentageIncrease_def jsSubtract_def)
qed

lemma bigintDivide_nonneg: "0 \<le> a \<Longrightarrow> bigintDivide a 100 = a div 100"
  by (cases "a = 0") (simp_all add: bigintDivide_def)

lemma scaleFee_nonneg: "0 \<le> k \<Longrightarrow> scaleFee fee k = fee * nat k div 100"
proof -
  assume k: "0 \<le> k"
  then have "0 \<le> int fee * k" by simp
  then have "scaleFee fee k = nat (int fee * k div 100)"
    by (simp add: scaleFee_def bigintDivide_nonneg)
  also have "int fee * k = int (fee * nat k)" using k by simp
  also have "nat (int (fee * nat k) div 100) = fee * nat k div 100"
    by (metis nat_int of_nat_numeral zdiv_int)
  finally show ?thesis .
qed

lemma scaleFee_floor:
  assumes "0 \<le> k"
  shows "int (scaleFee fee k) = \<lfloor>real fee * real_of_int k / 100\<rfloor>"
proof -
  have "\<lfloor>real fee * real_of_int k / 100\<rfloor> = \<lfloor>real (fee * nat k) / real 100\<rfloor>"
    using assms by simp
  also have "\<dots> = int (fee * nat k div 100)"
    by (rule floor_divide_of_nat_eq)
  finally show ?thesis by (simp add: scaleFee_nonneg [OF assms])
qed

lemma scaleFee_ge:
  assumes "100 \<le> k"
  shows "fee \<le> scaleFee fee k"
proof -
  from assms have k0: "0 \<le> k" and "100 \<le> nat k" by simp_all
  then have "fee * 100 \<le> fee * nat k" by (intro mult_le_mono2)
  then have "fee * 100 div 100 \<le> fee * nat k div 100" by (rule div_le_mono)
  then show ?thesis by (simp add: scaleFee_nonneg [OF k0])
qed

lemma adjustFee_scaled:
  "numberToBigInt (scaledGasFeesMultiplier m) = Inr k \<Longrightarrow> adjustFee fee m = scaleFee fee k"
  by (simp add: adjustFee_def)

lemma bitlen_eval:
  "bitlen (numeral n) = bitlen (numeral n div 2) + 1" "bitlen 1 = 1"
  by (simp_all add: compute_bitlen [of "numeral n"] compute_bitlen [of 1])

lemmas double_eval = roundToDouble_def ulpExponent_def binade_def roundHalfEven_def Let_def
  bitlen_eval

lemma double_1_2_nearest: "roundToDouble (12 / 10) = Num double_1_2"
  by (simp add: double_eval double_1_2_def)

lemma double_1_115_nearest: "roundToDouble (1115 / 1000) = Num double_1_115"
  by (simp add: double_eval double_1_115_def)

lemma scaled_1_2: "scaledGasFeesMultiplier (Num double_1_2) = Num 120"
  by (simp add: scaledGasFeesMultiplier_def percentageIncrease_def jsSubtract_def double_1_2_def
      double_eval)

lemma scaled_1_115: "scaledGasFeesMultiplier (Num double_1_115) = Num 112"
  by (simp add: scaledGasFeesMultiplier_def percentageIncrease_def jsSubtract_def
      double_1_115_def double_eval)

lemma exact_1_115:
  "\<lfloor>(1000::real) * real_of_int (100 + round ((double_1_115 - 1) * 100)) / 100\<rfloor> = 1110"
  by (simp add: double_1_115_def round_def)

lemma demo_multiplier:
  "\<not> jsLess (Num double_1_2) (Num 1)"
  "numberToBigInt (scaledGasFeesMultiplier (Num double_1_2)) = Inr 120"
  "scaleFee 1000 120 = 1200"
  "scaleFee 100 120 = 120"
  "adjustFee 1000 (Num double_1_2) = 1200"
  "adjustFee 100 (Num double_1_2) = 120"
  "\<not> double_1_2 < 1"
proof -
  show "\<not> double_1_2 < 1" by (simp add: double_1_2_def)
  then show "\<not> jsLess (Num double_1_2) (Num 1)" by simp
qed (simp_all add: adjustFee_def scaled_1_2 scaleFee_def bigintDivide_def)

lemma demo_multiplier_1_115:
  "\<not> jsLess (Num double_1_115) (Num 1)"
  "numberToBigInt (scaledGasFeesMultiplier (Num double_1_115)) = Inr 112"
  "scaleFee 1000 112 = 1120"
  "scaleFee 100 112 = 112"
  "\<not> double_1_115 < 1"
proof -
  show "\<not> double_1_115 < 1" by (simp add: double_1_115_def)
  then show "\<not> jsLess (Num double_1_115) (Num 1)" by simp
qed (simp_all add: scaled_1_115 scaleFee_def bigintDivide_def)

section \<open>The fee estimator\<close>

lemma estimateUserOp_success:
  assumes "estimateUserOp w url userOp n m = (t, Inr r)"
  shows "\<exists>fee pfee lo gl k.
           estimateFeesPerGas w =
             Inr \<lparr>oracle_maxFeePerGas = Some fee, oracle_maxPriorityFeePerGas = Some pfee\<rparr> \<and>
           fee \<noteq> 0 \<and> pfee \<noteq> 0 \<and> \<not> jsLess m (Num 1) \<and>
           numberToBigInt (scaledGasFeesMultiplier m) = Inr k \<and>
           snd (alchemyMaxPriorityFeePerGas w url) = Inr lo \<and>
           estimateUserOperationGas w
             (partialUserOpForEstimate userOp (maxBigInt (adjustFee pfee m) lo) (adjustFee fee m) n)
             = Inr gl \<and>
           t = FeeOracleQuery # fst (alchemyMaxPriorityFeePerGas w url) @
               [GasEstimation
                 (partialUserOpForEstimate userOp (maxBigInt (adjustFee pfee m) lo) (adjustFee fee m) n)] \<and>
           r = withEstimatedGas
                 (partialUserOpForEstimate userOp (maxBigInt (adjustFee pfee m) lo) (adjustFee fee m) n) gl"
proof (cases "estimateFeesPerGas w")
  case (Inl e)
  with assms show ?thesis by (simp add: estimateUserOp_def io_simps)
next
  case (Inr fs)
  obtain omf opf where fs: "fs = \<lparr>oracle_maxFeePerGas = omf, oracle_maxPriorityFeePerGas = opf\<rparr>"
    by (cases fs) simp
  show ?thesis
  proof (cases "falsyFee omf \<or> falsyFee opf \<or> jsLess m (Num 1)")
    case True
    with assms Inr fs show ?thesis
      by (auto simp: estimateUserOp_def io_simps split: if_splits)
  next
    case False
    then obtain fee pfee where f: "omf = Some fee" "opf = Some pfee" "fee \<noteq> 0" "pfee \<noteq> 0"
      by (auto simp: falsyFee_def split: option.splits)
    from False have m: "\<not> jsLess m (Num 1)" by simp
    obtain ta ra where a: "alchemyMaxPriorityFeePerGas w url = (ta, ra)"
      by (cases "alchemyMaxPriorityFeePerGas w url")
    show ?thesis
    proof (cases ra)
      case (Inl e)
      with assms Inr fs f m a show ?thesis
        by (simp add: estimateUserOp_def io_simps falsyFee_def)
    next
      case lo: (Inr lo)
      show ?thesis
      proof (cases "numberToBigInt (scaledGasFeesMultiplier m)")
        case (Inl e)
        with assms Inr fs f m a lo show ?thesis
          by (simp add: estimateUserOp_def io_simps falsyFee_def)
      next
        case k: (Inr k)
        have af: "scaleFee fee k = adjustFee fee m" "scaleFee pfee k = adjustFee pfee m"
          by (simp_all add: adjustFee_scaled [OF k])
        let ?op = "partialUserOpForEstimate userOp (maxBigInt (adjustFee pfee m) lo) (adjustFee fee m) n"
        show ?thesis
        proof (cases "estimateUserOperationGas w ?op")
          case (Inl e)
          with assms Inr fs f m a lo k show ?thesis
            by (simp add: estimateUserOp_def io_simps falsyFee_def Let_def af)
        next
          case gl: (Inr gl)
          with assms Inr fs f m a lo k show ?thesis
            by (simp add: estimateUserOp_def io_simps falsyFee_def Let_def af)
        qed
      qed
    qed
  qed
qed

lemma size_placeholders:
  "length (concat (replicate n placeholderSignature)) = 130 * n"
  by (induction n) (simp_all add: placeholderSignature_def)

lemma alchemy_trace:
  "fst (alchemyMaxPriorityFeePerGas w url) =
     (if isAlchemyBundler w url then [ProviderMinFeeQuery url] else [])"
  by (simp add: alchemyMaxPriorityFeePerGas_def andThen_split io_simps split: sum.splits)

text \<open>
  C4. Whenever the fee estimator returns an operation, the last call it made is the
  bundler's gas estimation, on an operation whose signature is \<open>numSigners\<close> copies of the
  65-byte filler, that is \<open>65 * numSigners\<close> bytes; the calls before it are the fee-oracle
  query and, for the known provider, the minimum-fee query, neither of which carries an
  operation. The operation returned has the empty signature \<^verbatim>\<open>0x\<close> and the three gas
  limits of the bundler's answer. The statement holds for every \<open>numSigners\<close>, zero
  included.
\<close>

theorem estimate_placeholder:
  assumes "estimateUserOp w url userOp numSigners m = (t, Inr r)"
  shows "\<exists>pre forEstimate gl.
           t = pre @ [GasEstimation forEstimate] \<and>
           set pre \<subseteq> {FeeOracleQuery, ProviderMinFeeQuery url} \<and>
           signature forEstimate = ''0x'' @ concat (replicate numSigners placeholderSignature) \<and>
           sizeHex (signature forEstimate) = 65 * numSigners \<and>
           estimateUserOperationGas w forEstimate = Inr gl \<and>
           r = forEstimate
                 \<lparr>callGasLimit := est_callGasLimit gl,
                  verificationGasLimit := est_verificationGasLimit gl,
                  preVerificationGas := est_preVerificationGas gl,
                  signature := ''0x''\<rparr> \<and>
           signature r = ''0x'' \<and>
           callGasLimit r = est_callGasLimit gl \<and>
           verificationGasLimit r = est_verificationGasLimit gl \<and>
           preVerificationGas r = est_preVerificationGas gl"
proof -
  from estimateUserOp_success [OF assms] obtain fee pfee lo gl where
    g: "estimateUserOperationGas w
          (partialUserOpForEstimate userOp (maxBigInt (adjustFee pfee m) lo) (adjustFee fee m) numSigners)
          = Inr gl"
    and t: "t = FeeOracleQuery # fst (alchemyMaxPriorityFeePerGas w url) @
               [GasEstimation
                 (partialUserOpForEstimate userOp (maxBigInt (adjustFee pfee m) lo) (adjustFee fee m) numSigners)]"
    and r: "r = withEstimatedGas
                 (partialUserOpForEstimate userOp (maxBigInt (adjustFee pfee m) lo) (adjustFee fee m) numSigners) gl"
    by blast
  let ?op = "partialUserOpForEstimate userOp (maxBigInt (adjustFee pfee m) lo) (adjustFee fee m) numSigners"
  let ?pre = "FeeOracleQuery # fst (alchemyMaxPriorityFeePerGas w url)"
  have 1: "t = ?pre @ [GasEstimation ?op]" using t by simp
  have 2: "set ?pre \<subseteq> {FeeOracleQuery, ProviderMinFeeQuery url}"
    by (auto simp: alchemy_trace)
  have 3: "signature ?op = ''0x'' @ concat (replicate numSigners placeholderSignature)"
    by (simp add: partialUserOpForEstimate_def)
  have 4: "sizeHex (signature ?op) = 65 * numSigners"
    unfolding 3 by (simp add: sizeHex_def size_placeholders)
  have 5: "r = ?op\<lparr>callGasLimit := est_callGasLimit gl,
                  verificationGasLimit := est_verificationGasLimit gl,
                  preVerificationGas := est_preVerificationGas gl,
                  signature := ''0x''\<rparr>"
    using r by (simp add: withEstimatedGas_def)
  have 6: "signature r = ''0x'' \<and> callGasLimit r = est_callGasLimit gl \<and>
           verificationGasLimit r = est_verificationGasLimit gl \<and>
           preVerificationGas r = est_preVerificationGas gl"
    unfolding 5 by simp
  from 1 2 3 4 g 5 6 show ?thesis by blast
qed

lemma demo_estimate:
  "estimateUserOp demoWorld demoUrl demoOp 2 (Num double_1_2) =
     ([FeeOracleQuery, GasEstimation (partialUserOpForEstimate demoOp 120 1200 2)],
      Inr (withEstimatedGas (partialUserOpForEstimate demoOp 120 1200 2) demoGasLimits))"
  by (simp add: estimateUserOp_def demoWorld_def demoUrl_def alchemyUrl_def io_simps falsyFee_def
      alchemyMaxPriorityFeePerGas_def demo_multiplier maxBigInt_def Let_def)

theorem estimate_placeholder_witness:
  "\<exists>t r. estimateUserOp demoWorld demoUrl demoOp 2 (Num double_1_2) = (t, Inr r) \<and>
         signature r = ''0x'' \<and> callGasLimit r = 50000 \<and>
         (\<exists>forEstimate. last t = GasEstimation forEstimate \<and> sizeHex (signature forEstimate) = 130)"
proof -
  from estimate_placeholder [OF demo_estimate] obtain pre forEstimate gl where
    t: "[FeeOracleQuery, GasEstimation (partialUserOpForEstimate demoOp 120 1200 2)] =
          pre @ [GasEstimation forEstimate]"
    and s: "sizeHex (signature forEstimate) = 65 * 2"
    and g: "estimateUserOperationGas demoWorld forEstimate = Inr gl"
    and r: "signature (withEstimatedGas (partialUserOpForEstimate demoOp 120 1200 2) demoGasLimits) = ''0x''"
      "callGasLimit (withEstimatedGas (partialUserOpForEstimate demoOp 120 1200 2) demoGasLimits)
         = est_callGasLimit gl"
    by blast
  from g have "gl = demoGasLimits" by (simp add: demoWorld_def)
  then have c: "est_callGasLimit gl = 50000" by (simp add: demoGasLimits_def)
  have l: "last [FeeOracleQuery, GasEstimation (partialUserOpForEstimate demoOp 120 1200 2)]
             = GasEstimation forEstimate"
    unfolding t by simp
  from demo_estimate r c l s show ?thesis by simp
qed

lemma demo_estimate_1_115:
  "estimateUserOp demoWorld demoUrl demoOp 2 (Num double_1_115) =
     ([FeeOracleQuery, GasEstimation (partialUserOpForEstimate demoOp 112 1120 2)],
      Inr (withEstimatedGas (partialUserOpForEstimate demoOp 112 1120 2) demoGasLimits))"
  by (simp add: estimateUserOp_def demoWorld_def demoUrl_def alchemyUrl_def io_simps falsyFee_def
      alchemyMaxPriorityFeePerGas_def demo_multiplier_1_115 maxBigInt_def Let_def)

text \<open>
  C5, as the code has it. Let the multiplier be a number that is not below 1 and for
  which \<^verbatim>\<open>BigInt(scaledGasFeesMultiplier)\<close> does not throw, and let \<open>k\<close> be that bigint, where
  \<open>scaledGasFeesMultiplier\<close> is \<^verbatim>\<open>100 + Math.round((gasFeesMultiplier - 1) * 100)\<close> computed
  on doubles, every operation rounded to the nearest double. Then \<open>k\<close> is at least 100,
  the scaled fee is the floor of \<open>fee * k / 100\<close>, and it is at least the fee. Whenever the
  estimator returns, the oracle gave two fees that are not zero, the multiplier is such
  a number, \<open>maxFeePerGas\<close> of the result is the scaled oracle value and
  \<open>maxPriorityFeePerGas\<close> is at least the scaled oracle value. Multiplier 1.2 on fee 1000
  gives 1200.
\<close>

theorem scaled_fee:
  "scaledGasFeesMultiplier m =
     jsAdd (Num 100) (Math_round (jsMultiply (jsSubtract m (Num 1)) (Num 100))) \<and>
   (\<not> jsLess m (Num 1) \<and> numberToBigInt (scaledGasFeesMultiplier m) = Inr k \<longrightarrow>
      100 \<le> k \<and>
      int (adjustFee fee m) = \<lfloor>real fee * real_of_int k / 100\<rfloor> \<and>
      fee \<le> adjustFee fee m) \<and>
   (estimateUserOp w url userOp n m = (t, Inr r) \<longrightarrow>
      (\<exists>f pf scaled.
         estimateFeesPerGas w =
           Inr \<lparr>oracle_maxFeePerGas = Some f, oracle_maxPriorityFeePerGas = Some pf\<rparr> \<and>
         f \<noteq> 0 \<and> pf \<noteq> 0 \<and>
         \<not> jsLess m (Num 1) \<and>
         numberToBigInt (scaledGasFeesMultiplier m) = Inr scaled \<and>
         maxFeePerGas r = adjustFee f m \<and>
         int (maxFeePerGas r) = \<lfloor>real f * real_of_int scaled / 100\<rfloor> \<and>
         f \<le> maxFeePerGas r \<and>
         adjustFee pf m \<le> maxPriorityFeePerGas r)) \<and>
   scaledGasFeesMultiplier (Num double_1_2) = Num 120 \<and>
   adjustFee 1000 (Num double_1_2) = 1200"
proof (intro conjI impI)
  show "scaledGasFeesMultiplier m =
     jsAdd (Num 100) (Math_round (jsMultiply (jsSubtract m (Num 1)) (Num 100)))"
    by (simp add: scaledGasFeesMultiplier_def percentageIncrease_def)
  show "scaledGasFeesMultiplier (Num double_1_2) = Num 120" by (rule scaled_1_2)
  show "adjustFee 1000 (Num double_1_2) = 1200" by (rule demo_multiplier(5))
next
  assume h: "\<not> jsLess m (Num 1) \<and> numberToBigInt (scaledGasFeesMultiplier m) = Inr k"
  then have k: "numberToBigInt (scaledGasFeesMultiplier m) = Inr k" by simp
  from h scaled_at_least_100 [of m k] show k100: "100 \<le> k" by blast
  then have k0: "0 \<le> k" by simp
  show "int (adjustFee fee m) = \<lfloor>real fee * real_of_int k / 100\<rfloor>"
    by (simp add: adjustFee_scaled [OF k] scaleFee_floor [OF k0])
  show "fee \<le> adjustFee fee m"
    by (simp add: adjustFee_scaled [OF k] scaleFee_ge [OF k100])
next
  assume "estimateUserOp w url userOp n m = (t, Inr r)"
  from estimateUserOp_success [OF this] obtain f pf lo gl scaled where
    o: "estimateFeesPerGas w =
          Inr \<lparr>oracle_maxFeePerGas = Some f, oracle_maxPriorityFeePerGas = Some pf\<rparr>"
    and nz: "f \<noteq> 0" "pf \<noteq> 0"
    and m: "\<not> jsLess m (Num 1)"
    and k: "numberToBigInt (scaledGasFeesMultiplier m) = Inr scaled"
    and r: "r = withEstimatedGas
                 (partialUserOpForEstimate userOp (maxBigInt (adjustFee pf m) lo) (adjustFee f m) n) gl"
    by blast
  from r have 1: "maxFeePerGas r = adjustFee f m" and 2: "adjustFee pf m \<le> maxPriorityFeePerGas r"
    by (simp_all add: withEstimatedGas_def partialUserOpForEstimate_def maxBigInt_def)
  from m k have k100: "100 \<le> scaled" by (rule scaled_at_least_100)
  then have k0: "0 \<le> scaled" by simp
  have 3: "int (maxFeePerGas r) = \<lfloor>real f * real_of_int scaled / 100\<rfloor>"
    by (simp add: 1 adjustFee_scaled [OF k] scaleFee_floor [OF k0])
  have 4: "f \<le> maxFeePerGas r"
    by (simp add: 1 adjustFee_scaled [OF k] scaleFee_ge [OF k100])
  from o nz m k 1 2 3 4
  show "\<exists>f pf scaled.
         estimateFeesPerGas w =
           Inr \<lparr>oracle_maxFeePerGas = Some f, oracle_maxPriorityFeePerGas = Some pf\<rparr> \<and>
         f \<noteq> 0 \<and> pf \<noteq> 0 \<and>
         \<not> jsLess m (Num 1) \<and>
         numberToBigInt (scaledGasFeesMultiplier m) = Inr scaled \<and>
         maxFeePerGas r = adjustFee f m \<and>
         int (maxFeePerGas r) = \<lfloor>real f * real_of_int scaled / 100\<rfloor> \<and>
         f \<le> maxFeePerGas r \<and>
         adjustFee pf m \<le> maxPriorityFeePerGas r"
    by blast
qed

theorem scaled_fee_witness:
  "\<not> jsLess (Num double_1_2) (Num 1) \<and>
   numberToBigInt (scaledGasFeesMultiplier (Num double_1_2)) = Inr 120 \<and>
   int (adjustFee 1000 (Num double_1_2)) = 1200 \<and>
   (\<exists>t r. estimateUserOp demoWorld demoUrl demoOp 2 (Num double_1_2) = (t, Inr r) \<and>
          int (maxFeePerGas r) = 1200)"
proof -
  note m = demo_multiplier(1) and k = demo_multiplier(2)
  from scaled_fee [of "Num double_1_2" 120 1000 demoWorld demoUrl demoOp 2
      "[FeeOracleQuery, GasEstimation (partialUserOpForEstimate demoOp 120 1200 2)]"
      "withEstimatedGas (partialUserOpForEstimate demoOp 120 1200 2) demoGasLimits"]
    m k demo_estimate
  have a: "int (adjustFee 1000 (Num double_1_2)) = \<lfloor>real 1000 * real_of_int 120 / 100\<rfloor>"
    and b: "\<exists>f pf scaled.
         estimateFeesPerGas demoWorld =
           Inr \<lparr>oracle_maxFeePerGas = Some f, oracle_maxPriorityFeePerGas = Some pf\<rparr> \<and>
         numberToBigInt (scaledGasFeesMultiplier (Num double_1_2)) = Inr scaled \<and>
         int (maxFeePerGas
               (withEstimatedGas (partialUserOpForEstimate demoOp 120 1200 2) demoGasLimits))
           = \<lfloor>real f * real_of_int scaled / 100\<rfloor>"
    by blast+
  from a have a': "int (adjustFee 1000 (Num double_1_2)) = 1200" by simp
  from b obtain f pf scaled where
    "estimateFeesPerGas demoWorld =
           Inr \<lparr>oracle_maxFeePerGas = Some f, oracle_maxPriorityFeePerGas = Some pf\<rparr>"
    and "numberToBigInt (scaledGasFeesMultiplier (Num double_1_2)) = Inr scaled"
    and x: "int (maxFeePerGas
               (withEstimatedGas (partialUserOpForEstimate demoOp 120 1200 2) demoGasLimits))
           = \<lfloor>real f * real_of_int scaled / 100\<rfloor>"
    by blast
  then have "f = 1000" "scaled = 120" by (simp_all add: demoWorld_def k)
  with x have "int (maxFeePerGas
               (withEstimatedGas (partialUserOpForEstimate demoOp 120 1200 2) demoGasLimits))
           = 1200" by simp
  with m k a' demo_estimate show ?thesis by blast
qed

text \<open>
  C5 as stated fails. At the double nearest to 1.115, which is at least 1, the exact
  product \<open>(multiplier - 1) * 100\<close> lies just below 11.5 and rounds to 11, so the formula of
  the claim gives 1110 for the fee 1000; the program's product is the double 11.5, which
  \<^verbatim>\<open>Math.round\<close> takes to 12, and the estimator returns 1120. And for an oracle fee of zero
  the estimator computes no scaled fee: it ends with \<open>FeeFetchError\<close>.
\<close>

theorem scaled_fee_not_of_exact_product:
  "1 \<le> double_1_115 \<and>
   roundToDouble (1115 / 1000) = Num double_1_115 \<and>
   \<lfloor>(1000::real) * real_of_int (100 + round ((double_1_115 - 1) * 100)) / 100\<rfloor> = 1110 \<and>
   snd (estimateUserOp demoWorld demoUrl demoOp 2 (Num double_1_115)) =
     Inr (withEstimatedGas (partialUserOpForEstimate demoOp 112 1120 2) demoGasLimits) \<and>
   maxFeePerGas (withEstimatedGas (partialUserOpForEstimate demoOp 112 1120 2) demoGasLimits)
     = 1120 \<and>
   estimateUserOp zeroFeeWorld demoUrl demoOp 2 (Num double_1_2) =
     ([FeeOracleQuery], Inl FeeFetchError)"
proof -
  have 1: "1 \<le> double_1_115" by (simp add: double_1_115_def)
  have 2: "maxFeePerGas (withEstimatedGas (partialUserOpForEstimate demoOp 112 1120 2) demoGasLimits)
     = 1120"
    by (simp add: withEstimatedGas_def partialUserOpForEstimate_def)
  have 3: "estimateUserOp zeroFeeWorld demoUrl demoOp 2 (Num double_1_2) =
     ([FeeOracleQuery], Inl FeeFetchError)"
    by (simp add: estimateUserOp_def zeroFeeWorld_def demoWorld_def io_simps falsyFee_def)
  from 1 2 3 double_1_115_nearest exact_1_115 demo_estimate_1_115 show ?thesis by simp
qed

text \<open>
  C6, as the code has it. With a multiplier below 1 the estimator always fails, and the
  fee-oracle query is the only call made: neither the provider's minimum-fee query nor
  the bundler's estimation is attempted. The failure is \<open>InvalidConfig\<close> when the oracle
  gave both fees; otherwise it is the oracle's own failure, or \<open>FeeFetchError\<close> for a fee
  that is absent or zero.
\<close>

theorem multiplier_below_one:
  assumes "jsLess m (Num 1)"
  shows "estimateUserOp w url userOp n m =
           ([FeeOracleQuery],
            Inl (case estimateFeesPerGas w of
                   Inl e \<Rightarrow> e
                 | Inr feesPerGas \<Rightarrow>
                     if falsyFee (oracle_maxFeePerGas feesPerGas) \<or>
                        falsyFee (oracle_maxPriorityFeePerGas feesPerGas)
                     then FeeFetchError else InvalidConfig))"
  using assms by (cases "estimateFeesPerGas w") (simp_all add: estimateUserOp_def io_simps)

theorem multiplier_below_one_witness:
  "jsLess (Num (1/2)) (Num 1) \<and>
   estimateUserOp demoWorld demoUrl demoOp 2 (Num (1/2)) = ([FeeOracleQuery], Inl InvalidConfig) \<and>
   estimateUserOp offlineWorld demoUrl demoOp 2 (Num (1/2)) =
     ([FeeOracleQuery], Inl (ExternalError ''fetch failed''))"
proof -
  have m: "jsLess (Num (1/2)) (Num 1)" by simp
  have "estimateUserOp demoWorld demoUrl demoOp 2 (Num (1/2)) = ([FeeOracleQuery], Inl InvalidConfig)"
    using multiplier_below_one [OF m, of demoWorld demoUrl demoOp 2]
    by (simp add: demoWorld_def falsyFee_def)
  moreover have "estimateUserOp offlineWorld demoUrl demoOp 2 (Num (1/2)) =
     ([FeeOracleQuery], Inl (ExternalError ''fetch failed''))"
    using multiplier_below_one [OF m, of offlineWorld demoUrl demoOp 2]
    by (simp add: offlineWorld_def demoWorld_def)
  ultimately show ?thesis using m by blast
qed

text \<open>
  C6 as stated fails: with multiplier 1/2 the fee oracle is queried before the run ends
  with \<open>InvalidConfig\<close>, and when that query throws, the run ends with its error instead.
\<close>

theorem fee_oracle_queried_before_config_check:
  "fst (estimateUserOp demoWorld demoUrl demoOp 2 (Num (1/2))) = [FeeOracleQuery] \<and>
   snd (estimateUserOp demoWorld demoUrl demoOp 2 (Num (1/2))) = Inl InvalidConfig \<and>
   isNetworkCall FeeOracleQuery \<and>
   snd (estimateUserOp offlineWorld demoUrl demoOp 2 (Num (1/2))) \<noteq> Inl InvalidConfig"
  by (simp add: estimateUserOp_def demoWorld_def offlineWorld_def io_simps falsyFee_def)

lemma estimateUserOp_floor_fails:
  assumes "estimateFeesPerGas w =
             Inr \<lparr>oracle_maxFeePerGas = Some fee, oracle_maxPriorityFeePerGas = Some pfee\<rparr>"
    and "fee \<noteq> 0" and "pfee \<noteq> 0" and "\<not> jsLess m (Num 1)"
    and "alchemyMaxPriorityFeePerGas w url = (ta, Inl e)"
  shows "estimateUserOp w url userOp n m = (FeeOracleQuery # ta, Inl e)"
  using assms by (simp add: estimateUserOp_def io_simps falsyFee_def)

text \<open>
  C9, as the code has it. For the known provider, with both oracle fees present and a
  multiplier that is not below 1: when the minimum-fee query throws, the estimator fails with
  that error after the two queries; when the result is a quantity,
  \<open>maxPriorityFeePerGas\<close> of the operation returned is the maximum of the scaled priority
  fee and that quantity; and when the response has no result, or an empty one, the floor
  is zero and \<open>maxPriorityFeePerGas\<close> is the scaled priority fee.
\<close>

theorem provider_floor:
  assumes "isAlchemyBundler w url"
    and "estimateFeesPerGas w =
           Inr \<lparr>oracle_maxFeePerGas = Some fee, oracle_maxPriorityFeePerGas = Some pfee\<rparr>"
    and "fee \<noteq> 0" and "pfee \<noteq> 0" and "\<not> jsLess m (Num 1)"
  shows "(rundler_maxPriorityFeePerGas w url = Inl e \<longrightarrow>
            estimateUserOp w url userOp n m =
              ([FeeOracleQuery, ProviderMinFeeQuery url], Inl e)) \<and>
         (rundler_maxPriorityFeePerGas w url = Inr (Some h) \<and> h \<noteq> [] \<and>
          stringToBigInt h = Some least \<and>
          estimateUserOp w url userOp n m = (t, Inr r) \<longrightarrow>
            maxPriorityFeePerGas r = max (adjustFee pfee m) least) \<and>
         ((rundler_maxPriorityFeePerGas w url = Inr None \<or>
           rundler_maxPriorityFeePerGas w url = Inr (Some [])) \<and>
          estimateUserOp w url userOp n m = (t, Inr r) \<longrightarrow>
            maxPriorityFeePerGas r = adjustFee pfee m)"
proof (intro conjI impI)
  assume "rundler_maxPriorityFeePerGas w url = Inl e"
  with assms(1) have "alchemyMaxPriorityFeePerGas w url = ([ProviderMinFeeQuery url], Inl e)"
    by (simp add: alchemyMaxPriorityFeePerGas_def io_simps)
  from estimateUserOp_floor_fails [OF assms(2-5) this]
  show "estimateUserOp w url userOp n m = ([FeeOracleQuery, ProviderMinFeeQuery url], Inl e)"
    by simp
next
  assume h: "rundler_maxPriorityFeePerGas w url = Inr (Some h) \<and> h \<noteq> [] \<and>
          stringToBigInt h = Some least \<and>
          estimateUserOp w url userOp n m = (t, Inr r)"
  with assms(1) have a: "alchemyMaxPriorityFeePerGas w url = ([ProviderMinFeeQuery url], Inr least)"
    by (simp add: alchemyMaxPriorityFeePerGas_def io_simps alchemyFloor_def)
  from h have "estimateUserOp w url userOp n m = (t, Inr r)" by simp
  from estimateUserOp_success [OF this] obtain fee' pfee' lo gl where
    "estimateFeesPerGas w =
       Inr \<lparr>oracle_maxFeePerGas = Some fee', oracle_maxPriorityFeePerGas = Some pfee'\<rparr>"
    and "snd (alchemyMaxPriorityFeePerGas w url) = Inr lo"
    and "r = withEstimatedGas
          (partialUserOpForEstimate userOp (maxBigInt (adjustFee pfee' m) lo) (adjustFee fee' m) n) gl"
    by blast
  with assms(2) a show "maxPriorityFeePerGas r = max (adjustFee pfee m) least"
    by (simp add: withEstimatedGas_def partialUserOpForEstimate_def maxBigInt_def max_def)
next
  assume h: "(rundler_maxPriorityFeePerGas w url = Inr None \<or>
           rundler_maxPriorityFeePerGas w url = Inr (Some [])) \<and>
          estimateUserOp w url userOp n m = (t, Inr r)"
  with assms(1) have a: "alchemyMaxPriorityFeePerGas w url = ([ProviderMinFeeQuery url], Inr 0)"
    by (auto simp: alchemyMaxPriorityFeePerGas_def io_simps alchemyFloor_def)
  from h have "estimateUserOp w url userOp n m = (t, Inr r)" by simp
  from estimateUserOp_success [OF this] obtain fee' pfee' lo gl where
    "estimateFeesPerGas w =
       Inr \<lparr>oracle_maxFeePerGas = Some fee', oracle_maxPriorityFeePerGas = Some pfee'\<rparr>"
    and "snd (alchemyMaxPriorityFeePerGas w url) = Inr lo"
    and "r = withEstimatedGas
          (partialUserOpForEstimate userOp (maxBigInt (adjustFee pfee' m) lo) (adjustFee fee' m) n) gl"
    by blast
  with assms(2) a show "maxPriorityFeePerGas r = adjustFee pfee m"
    by (simp add: withEstimatedGas_def partialUserOpForEstimate_def maxBigInt_def)
qed

lemma alchemyDown_fees:
  "isAlchemyBundler alchemyDown alchemyUrl"
  "estimateFeesPerGas alchemyDown =
     Inr \<lparr>oracle_maxFeePerGas = Some 1000, oracle_maxPriorityFeePerGas = Some 100\<rparr>"
  by (simp_all add: alchemyDown_def demoWorld_def)

lemma alchemyAnswers_fees:
  "isAlchemyBundler alchemyAnswers alchemyUrl"
  "estimateFeesPerGas alchemyAnswers =
     Inr \<lparr>oracle_maxFeePerGas = Some 1000, oracle_maxPriorityFeePerGas = Some 100\<rparr>"
  by (simp_all add: alchemyAnswers_def demoWorld_def)

theorem provider_floor_witness:
  "estimateUserOp alchemyDown alchemyUrl demoOp 2 (Num double_1_2) =
     ([FeeOracleQuery, ProviderMinFeeQuery alchemyUrl], Inl (ExternalError ''fetch failed'')) \<and>
   (\<exists>t r. estimateUserOp alchemyAnswers alchemyUrl demoOp 2 (Num double_1_2) = (t, Inr r) \<and>
          maxPriorityFeePerGas r = 500) \<and>
   (\<exists>t r. estimateUserOp demoWorld alchemyUrl demoOp 2 (Num double_1_2) = (t, Inr r) \<and>
          maxPriorityFeePerGas r = 120)"
proof -
  note m = demo_multiplier(1)
  have f: "(1000::nat) \<noteq> 0" "(100::nat) \<noteq> 0" by simp_all
  have d: "rundler_maxPriorityFeePerGas alchemyDown alchemyUrl = Inl (ExternalError ''fetch failed'')"
    by (simp add: alchemyDown_def)
  have 1: "estimateUserOp alchemyDown alchemyUrl demoOp 2 (Num double_1_2) =
     ([FeeOracleQuery, ProviderMinFeeQuery alchemyUrl], Inl (ExternalError ''fetch failed''))"
    using provider_floor [OF alchemyDown_fees f m,
        where e = "ExternalError ''fetch failed''" and userOp = demoOp and n = 2] d
    by blast
  have a: "rundler_maxPriorityFeePerGas alchemyAnswers alchemyUrl = Inr (Some ''0x1f4'')"
    and p: "stringToBigInt ''0x1f4'' = Some 500"
    by (simp_all add: alchemyAnswers_def hex_eval)
  obtain t r where run:
    "estimateUserOp alchemyAnswers alchemyUrl demoOp 2 (Num double_1_2) = (t, Inr r)"
    by (simp add: estimateUserOp_def alchemyAnswers_def demoWorld_def io_simps falsyFee_def
        alchemyMaxPriorityFeePerGas_def alchemyFloor_def hex_eval Let_def demo_multiplier)
  note s = demo_multiplier(6)
  from provider_floor [OF alchemyAnswers_fees f m,
      where h = "''0x1f4''" and userOp = demoOp and n = 2 and least = 500 and t = t and r = r]
    a p run s
  have 2: "maxPriorityFeePerGas r = 500" by simp
  have n: "rundler_maxPriorityFeePerGas demoWorld alchemyUrl = Inr None"
    and df: "isAlchemyBundler demoWorld alchemyUrl"
      "estimateFeesPerGas demoWorld =
         Inr \<lparr>oracle_maxFeePerGas = Some 1000, oracle_maxPriorityFeePerGas = Some 100\<rparr>"
    by (simp_all add: demoWorld_def)
  obtain t' r' where run':
    "estimateUserOp demoWorld alchemyUrl demoOp 2 (Num double_1_2) = (t', Inr r')"
    by (simp add: estimateUserOp_def demoWorld_def io_simps falsyFee_def
        alchemyMaxPriorityFeePerGas_def alchemyFloor_def Let_def demo_multiplier)
  from provider_floor [OF df f m, where userOp = demoOp and n = 2 and t = t' and r = r']
    n run' s
  have 3: "maxPriorityFeePerGas r' = 120" by simp
  from 1 2 3 run run' show ?thesis by blast
qed

text \<open>
  C9 as stated fails: when the provider's response has no result the estimator does not
  fail; it goes on with zero as the floor and returns the scaled priority fee, 120.
\<close>

theorem provider_missing_result_counts_as_zero:
  "isAlchemyBundler demoWorld alchemyUrl \<and>
   rundler_maxPriorityFeePerGas demoWorld alchemyUrl = Inr None \<and>
   estimateUserOp demoWorld alchemyUrl demoOp 2 (Num double_1_2) =
     ([FeeOracleQuery, ProviderMinFeeQuery alchemyUrl,
       GasEstimation (partialUserOpForEstimate demoOp 120 1200 2)],
      Inr (withEstimatedGas (partialUserOpForEstimate demoOp 120 1200 2) demoGasLimits)) \<and>
   maxPriorityFeePerGas (withEstimatedGas (partialUserOpForEstimate demoOp 120 1200 2) demoGasLimits)
     = 120"
  by (simp add: estimateUserOp_def demoWorld_def io_simps falsyFee_def
      alchemyMaxPriorityFeePerGas_def alchemyFloor_def demo_multiplier maxBigInt_def Let_def
      withEstimatedGas_def partialUserOpForEstimate_def)


lemma estimate_trace_network:
  assumes "estimateUserOp w url userOp n m = (t, r)"
  shows "filter (\<lambda>c. \<not> isNetworkCall c) t = []"
proof -
  have a: "filter (\<lambda>c. \<not> isNetworkCall c) (fst (alchemyMaxPriorityFeePerGas w url)) = []"
    by (simp add: alchemy_trace)
  have "filter (\<lambda>c. \<not> isNetworkCall c) (fst (estimateUserOp w url userOp n m)) = []"
    by (auto simp: estimateUserOp_def andThen_split io_simps Let_def a split: sum.splits)
  with assms show ?thesis by simp
qed

section \<open>The multisig orchestrator\<close>

lemma signUserOp_success:
  assumes "signUserOp w signer userOp = (t, Inr s)"
  obtains packed h where "packedUserOp userOp = Inr packed"
    and "readContract_getUserOpHash w ENTRYPOINT_ADDRESS_V07 packed = Inr h"
    and "signMessage w (privateKey signer) h = Inr s"
    and "t = signCalls packed h signer"
proof -
  from assms obtain t1 h t2 where
    1: "getUserOpHash w userOp ENTRYPOINT_ADDRESS_V07 = (t1, Inr h)"
    and 2: "perform (SignMessage (privateKey signer) h) (signMessage w (privateKey signer) h)
            = (t2, Inr s)"
    and t: "t = t1 @ t2"
    unfolding signUserOp_def by (rule andThen_success)
  from 1 obtain ta packed tb where
    3: "lift (packedUserOp userOp) = (ta, Inr packed)"
    and 4: "perform (HashQuery ENTRYPOINT_ADDRESS_V07 packed)
              (readContract_getUserOpHash w ENTRYPOINT_ADDRESS_V07 packed) = (tb, Inr h)"
    and t1: "t1 = ta @ tb"
    unfolding getUserOpHash_def by (rule andThen_success)
  from 2 3 4 t t1 have "packedUserOp userOp = Inr packed"
    and "readContract_getUserOpHash w ENTRYPOINT_ADDRESS_V07 packed = Inr h"
    and "signMessage w (privateKey signer) h = Inr s"
    and "t = signCalls packed h signer"
    by (auto simp: lift_def perform_def signCalls_def)
  then show ?thesis by (rule that)
qed

lemma signLoop_last:
  assumes "signLoop w p base N [N - 1] op0 sigs0 = (t, Inr (opG, sigs))"
  obtains te est pe he s where
    "estimateUserOp w (bundlerRPCUrl p) base N (gasFeesMultiplier p) = (te, Inr est)"
    and "packedUserOp est = Inr pe"
    and "readContract_getUserOpHash w ENTRYPOINT_ADDRESS_V07 pe = Inr he"
    and "signMessage w (privateKey (signerAddresses p ! (N - 1))) he = Inr s"
    and "opG = est"
    and "sigs = sigs0 @ [collected (signerAddresses p ! (N - 1)) s True]"
    and "t = te @ signCalls pe he (signerAddresses p ! (N - 1))"
proof -
  let ?signer = "signerAddresses p ! (N - 1)"
  from assms have
    "andThen (estimateUserOp w (bundlerRPCUrl p) base N (gasFeesMultiplier p))
       (\<lambda>userOpToSign. andThen (signUserOp w ?signer userOpToSign)
          (\<lambda>s. ret (userOpToSign, sigs0 @ [collected ?signer s True])))
     = (t, Inr (opG, sigs))"
    by (simp add: Let_def collected_def ret_def)
  then obtain te est t2 where e: "estimateUserOp w (bundlerRPCUrl p) base N (gasFeesMultiplier p) = (te, Inr est)"
    and 2: "andThen (signUserOp w ?signer est)
          (\<lambda>s. ret (est, sigs0 @ [collected ?signer s True])) = (t2, Inr (opG, sigs))"
    and t: "t = te @ t2"
    by (rule andThen_success)
  from 2 obtain ts s t3 where s: "signUserOp w ?signer est = (ts, Inr s)"
    and 3: "ret (est, sigs0 @ [collected ?signer s True]) = (t3, Inr (opG, sigs))"
    and t2: "t2 = ts @ t3"
    by (rule andThen_success)
  from s obtain pe he where "packedUserOp est = Inr pe"
    and "readContract_getUserOpHash w ENTRYPOINT_ADDRESS_V07 pe = Inr he"
    and "signMessage w (privateKey ?signer) he = Inr s"
    and "ts = signCalls pe he ?signer"
    by (rule signUserOp_success)
  moreover from 3 t t2 \<open>ts = signCalls pe he ?signer\<close>
  have "opG = est" "sigs = sigs0 @ [collected ?signer s True]" "t = te @ signCalls pe he ?signer"
    by (simp_all add: ret_def)
  ultimately show ?thesis using e that by blast
qed

lemma signLoop_early:
  assumes "signLoop w p base N (i # rest) op0 sigs0 = (t, Inr (opG, sigs))" and "i \<noteq> N - 1"
  obtains pb hb s t' where
    "packedUserOp base = Inr pb"
    and "readContract_getUserOpHash w ENTRYPOINT_ADDRESS_V07 pb = Inr hb"
    and "signMessage w (privateKey (signerAddresses p ! i)) hb = Inr s"
    and "signLoop w p base N rest base (sigs0 @ [collected (signerAddresses p ! i) s False])
           = (t', Inr (opG, sigs))"
    and "t = signCalls pb hb (signerAddresses p ! i) @ t'"
proof -
  let ?signer = "signerAddresses p ! i"
  from assms have
    "andThen (signUserOp w ?signer base)
          (\<lambda>s. signLoop w p base N rest base (sigs0 @ [collected ?signer s False]))
     = (t, Inr (opG, sigs))"
    by (simp add: Let_def collected_def ret_def andThen_Inr)
  then obtain ts s t' where s: "signUserOp w ?signer base = (ts, Inr s)"
    and 3: "signLoop w p base N rest base (sigs0 @ [collected ?signer s False]) = (t', Inr (opG, sigs))"
    and t: "t = ts @ t'"
    by (rule andThen_success)
  from s obtain pb hb where "packedUserOp base = Inr pb"
    and "readContract_getUserOpHash w ENTRYPOINT_ADDRESS_V07 pb = Inr hb"
    and "signMessage w (privateKey ?signer) hb = Inr s"
    and "ts = signCalls pb hb ?signer"
    by (rule signUserOp_success)
  with 3 t that show ?thesis by blast
qed


lemma signLoop_success:
  assumes "signLoop w p base N [k..<N] op0 sigs0 = (t, Inr (opG, sigs))" and "k < N"
  shows "\<exists>te est pe he pb hb sgs.
     estimateUserOp w (bundlerRPCUrl p) base N (gasFeesMultiplier p) = (te, Inr est) \<and>
     packedUserOp est = Inr pe \<and>
     readContract_getUserOpHash w ENTRYPOINT_ADDRESS_V07 pe = Inr he \<and>
     (k < N - 1 \<longrightarrow> packedUserOp base = Inr pb \<and>
        readContract_getUserOpHash w ENTRYPOINT_ADDRESS_V07 pb = Inr hb) \<and>
     (\<forall>i. k \<le> i \<and> i < N - 1 \<longrightarrow>
        signMessage w (privateKey (signerAddresses p ! i)) hb = Inr (sgs i)) \<and>
     signMessage w (privateKey (signerAddresses p ! (N - 1))) he = Inr (sgs (N - 1)) \<and>
     opG = est \<and>
     sigs = sigs0 @ map (\<lambda>i. collected (signerAddresses p ! i) (sgs i) (i = N - 1)) [k..<N] \<and>
     t = concat (map (\<lambda>i. signCalls pb hb (signerAddresses p ! i)) [k..<N - 1]) @ te @
         signCalls pe he (signerAddresses p ! (N - 1))"
  using assms
proof (induction "N - 1 - k" arbitrary: k op0 sigs0 t)
  case 0
  then have k: "k = N - 1" by simp
  with \<open>k < N\<close> have u: "[k..<N] = [N - 1]" "[k..<N - 1] = []"
    by (simp_all add: upt_rec)
  from "0.prems"(1) [unfolded u] obtain te est pe he s where
    "estimateUserOp w (bundlerRPCUrl p) base N (gasFeesMultiplier p) = (te, Inr est)"
    "packedUserOp est = Inr pe"
    "readContract_getUserOpHash w ENTRYPOINT_ADDRESS_V07 pe = Inr he"
    "signMessage w (privateKey (signerAddresses p ! (N - 1))) he = Inr s"
    "opG = est"
    "sigs = sigs0 @ [collected (signerAddresses p ! (N - 1)) s True]"
    "t = te @ signCalls pe he (signerAddresses p ! (N - 1))"
    by (rule signLoop_last)
  then show ?case
    unfolding u using k
    by - (rule exI [of _ te], rule exI [of _ est], rule exI [of _ pe], rule exI [of _ he],
        rule exI [of _ pe], rule exI [of _ he], rule exI [of _ "\<lambda>i. s"], auto)
next
  case (Suc d)
  then have k: "k < N - 1" "k \<noteq> N - 1" and d: "d = N - 1 - Suc k" and k': "Suc k < N"
    by simp_all
  from k' have u: "[k..<N] = k # [Suc k..<N]" "[k..<N - 1] = k # [Suc k..<N - 1]"
    using k by (simp_all add: upt_rec)
  from Suc.prems(1) [unfolded u] k(2) obtain pb hb s t' where
    pb: "packedUserOp base = Inr pb"
    and hb: "readContract_getUserOpHash w ENTRYPOINT_ADDRESS_V07 pb = Inr hb"
    and s: "signMessage w (privateKey (signerAddresses p ! k)) hb = Inr s"
    and loop: "signLoop w p base N [Suc k..<N] base (sigs0 @ [collected (signerAddresses p ! k) s False])
           = (t', Inr (opG, sigs))"
    and t: "t = signCalls pb hb (signerAddresses p ! k) @ t'"
    by (rule signLoop_early)
  from Suc.hyps(1) [OF d loop k'] obtain te est pe he pb' hb' sgs where
    e: "estimateUserOp w (bundlerRPCUrl p) base N (gasFeesMultiplier p) = (te, Inr est)"
    and pe: "packedUserOp est = Inr pe"
    and he: "readContract_getUserOpHash w ENTRYPOINT_ADDRESS_V07 pe = Inr he"
    and b': "Suc k < N - 1 \<longrightarrow> packedUserOp base = Inr pb' \<and>
        readContract_getUserOpHash w ENTRYPOINT_ADDRESS_V07 pb' = Inr hb'"
    and sg: "\<forall>i. Suc k \<le> i \<and> i < N - 1 \<longrightarrow>
        signMessage w (privateKey (signerAddresses p ! i)) hb' = Inr (sgs i)"
    and sl: "signMessage w (privateKey (signerAddresses p ! (N - 1))) he = Inr (sgs (N - 1))"
    and og: "opG = est"
    and sigs: "sigs = (sigs0 @ [collected (signerAddresses p ! k) s False]) @
          map (\<lambda>i. collected (signerAddresses p ! i) (sgs i) (i = N - 1)) [Suc k..<N]"
    and t': "t' = concat (map (\<lambda>i. signCalls pb' hb' (signerAddresses p ! i)) [Suc k..<N - 1]) @ te @
         signCalls pe he (signerAddresses p ! (N - 1))"
    by blast
  have same: "Suc k < N - 1 \<Longrightarrow> pb' = pb \<and> hb' = hb"
    using b' pb hb by auto
  let ?sgs = "sgs(k := s)"
  have m1: "map (\<lambda>i. collected (signerAddresses p ! i) (sgs i) (i = N - 1)) [Suc k..<N]
          = map (\<lambda>i. collected (signerAddresses p ! i) (?sgs i) (i = N - 1)) [Suc k..<N]"
    by simp
  have m2: "concat (map (\<lambda>i. signCalls pb' hb' (signerAddresses p ! i)) [Suc k..<N - 1])
          = concat (map (\<lambda>i. signCalls pb hb (signerAddresses p ! i)) [Suc k..<N - 1])"
  proof (cases "Suc k < N - 1")
    case True
    with same show ?thesis by simp
  next
    case False
    then show ?thesis by simp
  qed
  have a: "\<forall>i. k \<le> i \<and> i < N - 1 \<longrightarrow>
        signMessage w (privateKey (signerAddresses p ! i)) hb = Inr (?sgs i)"
  proof (intro allI impI)
    fix i assume i: "k \<le> i \<and> i < N - 1"
    show "signMessage w (privateKey (signerAddresses p ! i)) hb = Inr (?sgs i)"
    proof (cases "i = k")
      case True
      with s show ?thesis by simp
    next
      case False
      with i have "Suc k \<le> i \<and> i < N - 1" "Suc k < N - 1" by simp_all
      with sg same False show ?thesis by simp
    qed
  qed
  have b: "signMessage w (privateKey (signerAddresses p ! (N - 1))) he = Inr (?sgs (N - 1))"
    using sl k by simp
  have c: "sigs = sigs0 @ map (\<lambda>i. collected (signerAddresses p ! i) (?sgs i) (i = N - 1)) [k..<N]"
    unfolding u sigs m1 using k by simp
  have d: "t = concat (map (\<lambda>i. signCalls pb hb (signerAddresses p ! i)) [k..<N - 1]) @ te @
         signCalls pe he (signerAddresses p ! (N - 1))"
    unfolding u t t' m2 by simp
  from e pe he pb hb a b og c d show ?case by blast
qed

lemma getPartialUserOp_success:
  assumes "getPartialUserOp w a c = (t, Inr base)"
  shows "\<exists>n. getAccountNonce w a = Inr n \<and> n \<noteq> 0 \<and> t = [NonceQuery a] \<and>
     base = \<lparr>sender = a, nonce = n, factory = None, factoryData = None,
               callData = c, maxPriorityFeePerGas = 0, maxFeePerGas = 0,
               callGasLimit = 0, verificationGasLimit = 0, preVerificationGas = 0,
               signature = ''0x''\<rparr>"
  using assms
  by (cases "getAccountNonce w a")
    (auto simp: getPartialUserOp_def io_simps Let_def split: if_splits)


lemma forEachSig_success:
  assumes "forEachSig es acc = Inr out" and "\<forall>e \<in> set es. wellFormedSignature (sig_signature e)"
  shows "(\<forall>e \<in> set es. adjustedV e \<le> 255) \<and> out = acc @ concat (map packedBlock es)"
  using assms
proof (induction es arbitrary: acc)
  case Nil
  then show ?case by simp
next
  case (Cons e es)
  from Cons.prems(2) have w: "wellFormedSignature (sig_signature e)" by simp
  show ?case
  proof (cases "adjustedV e \<le> 255")
    case True
    from Cons.prems(1) have "forEachSig es (acc @ packedBlock e) = Inr out"
      by (simp add: packEntry_wellFormedSignature [OF w True])
    from Cons.IH [OF this] Cons.prems(2) True show ?thesis by simp
  next
    case False
    from Cons.prems(1) show ?thesis
      by (simp add: packEntry_overflow [OF w False])
  qed
qed

lemma sortBySigner_success:
  assumes "sortBySigner es = Inr ss"
  shows "ss = sort_key signerKey es"
proof (cases "length es \<le> 1")
  case True
  then have "es = [] \<or> (\<exists>x. es = [x])"
    by (cases es) (auto simp: length_Suc_conv)
  with assms show ?thesis by (auto simp: sortBySigner_def)
next
  case False
  with assms show ?thesis by (auto simp: sortBySigner_def split: if_splits)
qed

lemma buildMultiSigUserOp_success:
  assumes "buildMultiSigUserOp userOp es = Inr r"
    and "\<forall>e \<in> set es. wellFormedSignature (sig_signature e)"
  shows "(\<forall>e \<in> set es. adjustedV e \<le> 255) \<and>
         r = userOp\<lparr>signature := ''0x'' @ concat (map packedBlock (sort_key signerKey es))\<rparr>"
proof -
  from assms(1) obtain ss out where s: "sortBySigner es = Inr ss"
    and f: "forEachSig ss [] = Inr out" and r: "r = userOp\<lparr>signature := ''0x'' @ out\<rparr>"
    by (auto simp: buildMultiSigUserOp_def split: sum.splits)
  from sortBySigner_success [OF s] have ss: "ss = sort_key signerKey es" .
  with assms(2) have "\<forall>e \<in> set ss. wellFormedSignature (sig_signature e)" by simp
  from forEachSig_success [OF f this] ss r show ?thesis by simp
qed

lemma map_nth_upt: "n \<le> length xs \<Longrightarrow> map (\<lambda>i. f (xs ! i)) [0..<n] = map f (take n xs)"
  by (simp add: list_eq_iff_nth_eq)

lemma buildAndSign_success:
  assumes "buildAndSignMultisigUserOp w p = (t, Inr r)"
  obtains n base t2 opG sigs where
    "getAccountNonce w (walletAddress p) = Inr n" and "n \<noteq> 0"
    and "base = \<lparr>sender = walletAddress p, nonce = n, factory = None, factoryData = None,
               callData = callData_arg p, maxPriorityFeePerGas = 0, maxFeePerGas = 0,
               callGasLimit = 0, verificationGasLimit = 0, preVerificationGas = 0,
               signature = ''0x''\<rparr>"
    and "signLoop w p base (length (signerAddresses p)) [0..<length (signerAddresses p)] base []
           = (t2, Inr (opG, sigs))"
    and "buildMultiSigUserOp opG sigs = Inr r"
    and "t = NonceQuery (walletAddress p) # t2"
proof -
  from assms obtain t1 base t' where
    g: "getPartialUserOp w (walletAddress p) (callData_arg p) = (t1, Inr base)"
    and 2: "andThen (signLoop w p base (length (signerAddresses p))
                      [0..<length (signerAddresses p)] base [])
             (\<lambda>(partialUserOpWithGas, signatures).
                lift (buildMultiSigUserOp partialUserOpWithGas signatures)) = (t', Inr r)"
    and t: "t = t1 @ t'"
    unfolding buildAndSignMultisigUserOp_def Let_def by (rule andThen_success)
  from 2 obtain t2 x t3 where
    l: "signLoop w p base (length (signerAddresses p)) [0..<length (signerAddresses p)] base []
          = (t2, Inr x)"
    and 3: "(case x of (partialUserOpWithGas, signatures) \<Rightarrow>
                lift (buildMultiSigUserOp partialUserOpWithGas signatures)) = (t3, Inr r)"
    and t': "t' = t2 @ t3"
    by (rule andThen_success)
  obtain opG sigs where x: "x = (opG, sigs)" by (cases x)
  from 3 x have b: "buildMultiSigUserOp opG sigs = Inr r" and t3: "t3 = []"
    by (simp_all add: lift_def)
  from getPartialUserOp_success [OF g] obtain n where
    "getAccountNonce w (walletAddress p) = Inr n" "n \<noteq> 0" "t1 = [NonceQuery (walletAddress p)]"
    "base = \<lparr>sender = walletAddress p, nonce = n, factory = None, factoryData = None,
               callData = callData_arg p, maxPriorityFeePerGas = 0, maxFeePerGas = 0,
               callGasLimit = 0, verificationGasLimit = 0, preVerificationGas = 0,
               signature = ''0x''\<rparr>"
    by blast
  with l x b t t' t3 that show ?thesis by simp
qed


text \<open>
  C2. Whenever the orchestrator returns an operation for a list of at least one signer,
  its calls are, in order: the nonce query; for every signer but the last, the hash read
  of the base operation (every gas and fee field zero, signature empty) and that
  signer's signature over the hash returned; the calls of the fee estimator; and for
  the last signer the hash read of the operation the estimator returned and the
  signature over that hash. With one signer nothing is signed before the estimator ran.
\<close>

theorem signing_protocol:
  assumes "buildAndSignMultisigUserOp w p = (t, Inr r)" and "signerAddresses p \<noteq> []"
  shows "\<exists>n te est pb hb pe he.
     getAccountNonce w (walletAddress p) = Inr n \<and>
     estimateUserOp w (bundlerRPCUrl p) (baseUserOp (walletAddress p) n (callData_arg p))
       (length (signerAddresses p)) (gasFeesMultiplier p) = (te, Inr est) \<and>
     (1 < length (signerAddresses p) \<longrightarrow>
        packedUserOp (baseUserOp (walletAddress p) n (callData_arg p)) = Inr pb \<and>
        readContract_getUserOpHash w ENTRYPOINT_ADDRESS_V07 pb = Inr hb) \<and>
     packedUserOp est = Inr pe \<and>
     readContract_getUserOpHash w ENTRYPOINT_ADDRESS_V07 pe = Inr he \<and>
     t = NonceQuery (walletAddress p) #
         concat (map (signCalls pb hb) (butlast (signerAddresses p))) @ te @
         signCalls pe he (last (signerAddresses p)) \<and>
     filter (\<lambda>c. \<not> isNetworkCall c) t =
       map (\<lambda>s. SignMessage (privateKey s) hb) (butlast (signerAddresses p)) @
       [SignMessage (privateKey (last (signerAddresses p))) he]"
proof -
  let ?ss = "signerAddresses p"
  let ?N = "length ?ss"
  from assms(2) have N: "0 < ?N" by simp
  from assms(1) obtain n base t2 opG sigs where
    n: "getAccountNonce w (walletAddress p) = Inr n"
    and base: "base = baseUserOp (walletAddress p) n (callData_arg p)"
    and loop: "signLoop w p base ?N [0..<?N] base [] = (t2, Inr (opG, sigs))"
    and t: "t = NonceQuery (walletAddress p) # t2"
    unfolding baseUserOp_def by (rule buildAndSign_success)
  from signLoop_success [OF loop N] obtain te est pe he pb hb sgs where
    "estimateUserOp w (bundlerRPCUrl p) base ?N (gasFeesMultiplier p) = (te, Inr est) \<and>
     packedUserOp est = Inr pe \<and>
     readContract_getUserOpHash w ENTRYPOINT_ADDRESS_V07 pe = Inr he \<and>
     (0 < ?N - 1 \<longrightarrow> packedUserOp base = Inr pb \<and>
        readContract_getUserOpHash w ENTRYPOINT_ADDRESS_V07 pb = Inr hb) \<and>
     (\<forall>i. 0 \<le> i \<and> i < ?N - 1 \<longrightarrow>
        signMessage w (privateKey (?ss ! i)) hb = Inr (sgs i)) \<and>
     signMessage w (privateKey (?ss ! (?N - 1))) he = Inr (sgs (?N - 1)) \<and>
     opG = est \<and>
     sigs = [] @ map (\<lambda>i. collected (?ss ! i) (sgs i) (i = ?N - 1)) [0..<?N] \<and>
     t2 = concat (map (\<lambda>i. signCalls pb hb (?ss ! i)) [0..<?N - 1]) @ te @
         signCalls pe he (?ss ! (?N - 1))"
    by (elim exE) (rule that)
  then have
    e: "estimateUserOp w (bundlerRPCUrl p) base ?N (gasFeesMultiplier p) = (te, Inr est)"
    and pe: "packedUserOp est = Inr pe"
    and he: "readContract_getUserOpHash w ENTRYPOINT_ADDRESS_V07 pe = Inr he"
    and b: "0 < ?N - 1 \<longrightarrow> packedUserOp base = Inr pb \<and>
        readContract_getUserOpHash w ENTRYPOINT_ADDRESS_V07 pb = Inr hb"
    and t2: "t2 = concat (map (\<lambda>i. signCalls pb hb (?ss ! i)) [0..<?N - 1]) @ te @
         signCalls pe he (?ss ! (?N - 1))"
    by simp_all
  have bl: "map (\<lambda>i. signCalls pb hb (?ss ! i)) [0..<?N - 1] = map (signCalls pb hb) (butlast ?ss)"
    by (simp add: map_nth_upt butlast_conv_take)
  have la: "?ss ! (?N - 1) = last ?ss"
    using assms(2) by (simp add: last_conv_nth)
  have tt: "t = NonceQuery (walletAddress p) #
         concat (map (signCalls pb hb) (butlast ?ss)) @ te @ signCalls pe he (last ?ss)"
    unfolding t t2 bl la by simp
  have f1: "filter (\<lambda>c. \<not> isNetworkCall c) te = []"
    by (rule estimate_trace_network [OF e])
  have f2: "filter (\<lambda>c. \<not> isNetworkCall c) (concat (map (signCalls pb hb) xs))
      = map (\<lambda>s. SignMessage (privateKey s) hb) xs" for xs
    by (induction xs) (simp_all add: signCalls_def)
  have ff: "filter (\<lambda>c. \<not> isNetworkCall c) t =
       map (\<lambda>s. SignMessage (privateKey s) hb) (butlast ?ss) @
       [SignMessage (privateKey (last ?ss)) he]"
    unfolding tt by (simp add: f1 f2) (simp add: signCalls_def)
  from b have b': "1 < ?N \<longrightarrow> packedUserOp base = Inr pb \<and>
        readContract_getUserOpHash w ENTRYPOINT_ADDRESS_V07 pb = Inr hb"
    by simp
  from n e b' pe he tt ff show ?thesis
    unfolding base by blast
qed

lemma demo_run:
  "\<exists>t r. buildAndSignMultisigUserOp demoWorld demoParams = (t, Inr r)"
  by (simp add: buildAndSignMultisigUserOp_def demoParams_def getPartialUserOp_def demoWorld_def
      io_simps Let_def signUserOp_def getUserOpHash_def packedUserOp_def pad16_def numberToHex_def
      padHex_def toString16.simps hexDigit_def bothTruthy_def concatHex_def
      estimateUserOp_def falsyFee_def alchemyMaxPriorityFeePerGas_def demoUrl_def alchemyUrl_def
      demo_multiplier maxBigInt_def
      partialUserOpForEstimate_def withEstimatedGas_def demoGasLimits_def
      signerA_def signer1_def upt_rec
      buildMultiSigUserOp_def sortBySigner_def signerKey_def scenarioAddressA_def
      scenarioAddress1_def hex_eval packEntry_def takeBytes_def slice_def parseInt_def
      demoSigA_def demoSig1_def)


lemma packedUserOp_preVerificationGas:
  "packedUserOp userOp = Inr pk \<Longrightarrow> packed_preVerificationGas pk = preVerificationGas userOp"
  by (auto simp: packedUserOp_def Let_def split: sum.splits)

lemma demo_signers: "signerAddresses demoParams = [signerA, signer1]"
  by (simp add: demoParams_def)

theorem signing_protocol_witness:
  "\<exists>t r. buildAndSignMultisigUserOp demoWorld demoParams = (t, Inr r) \<and>
         filter (\<lambda>c. \<not> isNetworkCall c) t =
           [SignMessage ''keyA'' ''0x01'', SignMessage ''key1'' ''0x02'']"
proof -
  from demo_run obtain t r where
    run: "buildAndSignMultisigUserOp demoWorld demoParams = (t, Inr r)" by blast
  have ne: "signerAddresses demoParams \<noteq> []" by (simp add: demo_signers)
  from signing_protocol [OF run ne] obtain n te est pb hb pe he where
    e: "estimateUserOp demoWorld (bundlerRPCUrl demoParams)
          (baseUserOp (walletAddress demoParams) n (callData_arg demoParams))
          (length (signerAddresses demoParams)) (gasFeesMultiplier demoParams) = (te, Inr est)"
    and b: "1 < length (signerAddresses demoParams) \<longrightarrow>
        packedUserOp (baseUserOp (walletAddress demoParams) n (callData_arg demoParams)) = Inr pb \<and>
        readContract_getUserOpHash demoWorld ENTRYPOINT_ADDRESS_V07 pb = Inr hb"
    and pe: "packedUserOp est = Inr pe"
    and he: "readContract_getUserOpHash demoWorld ENTRYPOINT_ADDRESS_V07 pe = Inr he"
    and f: "filter (\<lambda>c. \<not> isNetworkCall c) t =
       map (\<lambda>s. SignMessage (privateKey s) hb) (butlast (signerAddresses demoParams)) @
       [SignMessage (privateKey (last (signerAddresses demoParams))) he]"
    by blast
  from b have pb: "packedUserOp (baseUserOp (walletAddress demoParams) n (callData_arg demoParams)) = Inr pb"
    and hb: "readContract_getUserOpHash demoWorld ENTRYPOINT_ADDRESS_V07 pb = Inr hb"
    by (simp_all add: demo_signers)
  from packedUserOp_preVerificationGas [OF pb] have "packed_preVerificationGas pb = 0"
    by (simp add: baseUserOp_def)
  with hb have hb': "hb = ''0x01''" by (simp add: demoWorld_def)
  from estimateUserOp_success [OF e] obtain fee pfee lo gl where
    g: "estimateUserOperationGas demoWorld
          (partialUserOpForEstimate (baseUserOp (walletAddress demoParams) n (callData_arg demoParams))
             (maxBigInt (adjustFee pfee (gasFeesMultiplier demoParams)) lo)
             (adjustFee fee (gasFeesMultiplier demoParams)) (length (signerAddresses demoParams)))
          = Inr gl"
    and est: "est = withEstimatedGas
          (partialUserOpForEstimate (baseUserOp (walletAddress demoParams) n (callData_arg demoParams))
             (maxBigInt (adjustFee pfee (gasFeesMultiplier demoParams)) lo)
             (adjustFee fee (gasFeesMultiplier demoParams)) (length (signerAddresses demoParams))) gl"
    by blast
  from g have "gl = demoGasLimits" by (simp add: demoWorld_def)
  with est have "preVerificationGas est = 46680"
    by (simp add: withEstimatedGas_def demoGasLimits_def)
  with packedUserOp_preVerificationGas [OF pe] he have he': "he = ''0x02''"
    by (simp add: demoWorld_def)
  from f hb' he' have "filter (\<lambda>c. \<not> isNetworkCall c) t =
           [SignMessage ''keyA'' ''0x01'', SignMessage ''key1'' ''0x02'']"
    by (simp add: demo_signers signerA_def signer1_def)
  with run show ?thesis by blast
qed

text \<open>
  C3. Whenever the orchestrator returns an operation for a list of at least one signer,
  with a signer that returns 65-byte signatures, it collected one entry per signer, in
  the order given; exactly the last one is FINAL, and its signature is the one made
  over the hash of the estimated operation, the others being made over the hash of the
  base operation. The packed signature consists of the blocks of these entries in
  ascending signer order, and the recovery byte of a block is the raw byte plus 32 for
  the FINAL entry and the raw byte for every other entry.
\<close>

theorem final_marker:
  assumes "buildAndSignMultisigUserOp w p = (t, Inr r)" and "signerAddresses p \<noteq> []"
    and "\<forall>key h s. signMessage w key h = Inr s \<longrightarrow> wellFormedSignature s"
  shows "\<exists>sigs n est pe he hb.
     length sigs = length (signerAddresses p) \<and>
     map sig_signer sigs = map address (signerAddresses p) \<and>
     (\<forall>i < length sigs. isFinal (sigs ! i) \<longleftrightarrow> i = length sigs - 1) \<and>
     getAccountNonce w (walletAddress p) = Inr n \<and>
     snd (estimateUserOp w (bundlerRPCUrl p) (baseUserOp (walletAddress p) n (callData_arg p))
            (length (signerAddresses p)) (gasFeesMultiplier p)) = Inr est \<and>
     packedUserOp est = Inr pe \<and>
     readContract_getUserOpHash w ENTRYPOINT_ADDRESS_V07 pe = Inr he \<and>
     signMessage w (privateKey (last (signerAddresses p))) he = Inr (sig_signature (last sigs)) \<and>
     (\<forall>i < length sigs - 1.
        signMessage w (privateKey (signerAddresses p ! i)) hb = Inr (sig_signature (sigs ! i))) \<and>
     signature r = ''0x'' @ concat (map packedBlock (sort_key signerKey sigs)) \<and>
     (\<forall>e \<in> set sigs.
        adjustedV e \<le> 255 \<and>
        take 128 (packedBlock e) = rsPart e \<and>
        digitsValue 16 (drop 128 (packedBlock e)) = vByte e + (if isFinal e then 32 else 0))"
proof -
  let ?ss = "signerAddresses p"
  let ?N = "length ?ss"
  from assms(2) have N: "0 < ?N" by simp
  from assms(1) obtain n base t2 opG sigs where
    n: "getAccountNonce w (walletAddress p) = Inr n"
    and base: "base = baseUserOp (walletAddress p) n (callData_arg p)"
    and loop: "signLoop w p base ?N [0..<?N] base [] = (t2, Inr (opG, sigs))"
    and build: "buildMultiSigUserOp opG sigs = Inr r"
    unfolding baseUserOp_def by (rule buildAndSign_success)
  from signLoop_success [OF loop N] obtain te est pe he pb hb sgs where
    "estimateUserOp w (bundlerRPCUrl p) base ?N (gasFeesMultiplier p) = (te, Inr est) \<and>
     packedUserOp est = Inr pe \<and>
     readContract_getUserOpHash w ENTRYPOINT_ADDRESS_V07 pe = Inr he \<and>
     (0 < ?N - 1 \<longrightarrow> packedUserOp base = Inr pb \<and>
        readContract_getUserOpHash w ENTRYPOINT_ADDRESS_V07 pb = Inr hb) \<and>
     (\<forall>i. 0 \<le> i \<and> i < ?N - 1 \<longrightarrow>
        signMessage w (privateKey (?ss ! i)) hb = Inr (sgs i)) \<and>
     signMessage w (privateKey (?ss ! (?N - 1))) he = Inr (sgs (?N - 1)) \<and>
     opG = est \<and>
     sigs = [] @ map (\<lambda>i. collected (?ss ! i) (sgs i) (i = ?N - 1)) [0..<?N] \<and>
     t2 = concat (map (\<lambda>i. signCalls pb hb (?ss ! i)) [0..<?N - 1]) @ te @
         signCalls pe he (?ss ! (?N - 1))"
    by (elim exE) (rule that)
  then have
    e: "estimateUserOp w (bundlerRPCUrl p) base ?N (gasFeesMultiplier p) = (te, Inr est)"
    and pe: "packedUserOp est = Inr pe"
    and he: "readContract_getUserOpHash w ENTRYPOINT_ADDRESS_V07 pe = Inr he"
    and early: "\<forall>i. i < ?N - 1 \<longrightarrow> signMessage w (privateKey (?ss ! i)) hb = Inr (sgs i)"
    and final: "signMessage w (privateKey (?ss ! (?N - 1))) he = Inr (sgs (?N - 1))"
    and sigs: "sigs = map (\<lambda>i. collected (?ss ! i) (sgs i) (i = ?N - 1)) [0..<?N]"
    by simp_all
  have len: "length sigs = ?N" by (simp add: sigs)
  have nth: "sigs ! i = collected (?ss ! i) (sgs i) (i = ?N - 1)" if "i < ?N" for i
    using that by (simp add: sigs)
  have 1: "map sig_signer sigs = map address ?ss"
    by (simp add: list_eq_iff_nth_eq len nth collected_def)
  have 2: "\<forall>i < length sigs. isFinal (sigs ! i) \<longleftrightarrow> i = length sigs - 1"
    by (simp add: len nth collected_def isFinal_def)
  from N len have sne: "sigs \<noteq> []" by auto
  have la: "last sigs = collected (?ss ! (?N - 1)) (sgs (?N - 1)) True"
    using N nth [of "?N - 1"] by (simp add: last_conv_nth [OF sne] len)
  have 3: "signMessage w (privateKey (last ?ss)) he = Inr (sig_signature (last sigs))"
    using final assms(2) by (simp add: la collected_def last_conv_nth)
  have wf: "\<forall>e \<in> set sigs. wellFormedSignature (sig_signature e)"
  proof
    fix e assume "e \<in> set sigs"
    then obtain i where i: "i < ?N" and ei: "e = sigs ! i"
      by (auto simp: in_set_conv_nth len)
    show "wellFormedSignature (sig_signature e)"
    proof (cases "i = ?N - 1")
      case True
      with final assms(3) ei nth [OF i] show ?thesis
        by (auto simp: collected_def)
    next
      case False
      with i have "i < ?N - 1" by simp
      with early assms(3) ei nth [OF i] show ?thesis
        by (auto simp: collected_def)
    qed
  qed
  from buildMultiSigUserOp_success [OF build wf] have
    v: "\<forall>e \<in> set sigs. adjustedV e \<le> 255"
    and r: "r = opG\<lparr>signature := ''0x'' @ concat (map packedBlock (sort_key signerKey sigs))\<rparr>"
    by simp_all
  have 4: "\<forall>e \<in> set sigs.
        adjustedV e \<le> 255 \<and>
        take 128 (packedBlock e) = rsPart e \<and>
        digitsValue 16 (drop 128 (packedBlock e)) = vByte e + (if isFinal e then 32 else 0)"
  proof
    fix e assume m: "e \<in> set sigs"
    with v have a: "adjustedV e < 256" by auto
    from m wf have "length (rsPart e) = 128"
      by (auto simp: wellFormedSignature_def rsPart_def)
    with a digitsValue_byteHex [OF a]
    show "adjustedV e \<le> 255 \<and>
        take 128 (packedBlock e) = rsPart e \<and>
        digitsValue 16 (drop 128 (packedBlock e)) = vByte e + (if isFinal e then 32 else 0)"
      by (simp add: packedBlock_def adjustedV_def)
  qed
  have 5: "snd (estimateUserOp w (bundlerRPCUrl p) (baseUserOp (walletAddress p) n (callData_arg p))
            ?N (gasFeesMultiplier p)) = Inr est"
    using e by (simp add: base)
  have 6: "signature r = ''0x'' @ concat (map packedBlock (sort_key signerKey sigs))"
    by (simp add: r)
  have 7: "\<forall>i < length sigs - 1.
        signMessage w (privateKey (?ss ! i)) hb = Inr (sig_signature (sigs ! i))"
    using early by (simp add: len nth collected_def)
  from len 1 2 n 5 pe he 3 7 6 4 show ?thesis by blast
qed

lemma demo_signer_contract:
  "\<forall>key h s. signMessage demoWorld key h = Inr s \<longrightarrow> wellFormedSignature s"
  by (simp add: demoWorld_def wellFormedSignature_def demoSigA_def demoSig1_def isHexDigit_def
      hexDigitValue_def)

theorem final_marker_witness:
  "\<exists>t r. buildAndSignMultisigUserOp demoWorld demoParams = (t, Inr r) \<and>
         signature r =
           ''0x'' @ take 128 (drop 2 demoSig1) @ ''3c'' @ take 128 (drop 2 demoSigA) @ ''1b''"
proof -
  from demo_run obtain t r where
    run: "buildAndSignMultisigUserOp demoWorld demoParams = (t, Inr r)" by blast
  have ne: "signerAddresses demoParams \<noteq> []" by (simp add: demo_signers)
  from final_marker [OF run ne demo_signer_contract] obtain sigs he hb where
    len: "length sigs = length (signerAddresses demoParams)"
    and sg: "map sig_signer sigs = map address (signerAddresses demoParams)"
    and fin: "\<forall>i < length sigs. isFinal (sigs ! i) \<longleftrightarrow> i = length sigs - 1"
    and last: "signMessage demoWorld (privateKey (last (signerAddresses demoParams))) he
                 = Inr (sig_signature (last sigs))"
    and early: "\<forall>i < length sigs - 1.
        signMessage demoWorld (privateKey (signerAddresses demoParams ! i)) hb
          = Inr (sig_signature (sigs ! i))"
    and r: "signature r = ''0x'' @ concat (map packedBlock (sort_key signerKey sigs))"
    by blast
  from len obtain a b where sigs: "sigs = [a, b]"
    by (auto simp: demo_signers length_Suc_conv)
  from sg sigs have adr: "sig_signer a = scenarioAddressA" "sig_signer b = scenarioAddress1"
    by (simp_all add: demo_signers signerA_def signer1_def)
  from fin sigs have f: "\<not> isFinal a" "isFinal b"
    by auto
  from last sigs have sb: "sig_signature b = demoSig1"
    by (simp add: demo_signers signer1_def demoWorld_def)
  from early sigs have sa: "sig_signature a = demoSigA"
    by (simp add: demo_signers signerA_def demoWorld_def)
  have ka: "signerKey a = 974334424887268612135789888477522013103955028650"
    and kb: "signerKey b = 97433442488726861213578988847752201310395502865"
    using adr by (simp_all add: signerKey_def scenarioAddressA_def scenarioAddress1_def hex_eval)
  have so: "sort_key signerKey sigs = [b, a]"
    by (simp add: sigs ka kb)
  have pa: "packedBlock a = take 128 (drop 2 demoSigA) @ ''1b''"
    using f(1) by (simp add: packedBlock_def rsPart_def adjustedV_def vByte_def sa demoSigA_def
        byteHex_def hexDigit_def digitsValue_def digitOr0_def hexDigitValue_def)
  have pb: "packedBlock b = take 128 (drop 2 demoSig1) @ ''3c''"
    using f(2) by (simp add: packedBlock_def rsPart_def adjustedV_def vByte_def sb demoSig1_def
        byteHex_def hexDigit_def digitsValue_def digitOr0_def hexDigitValue_def)
  from r have "signature r =
     ''0x'' @ take 128 (drop 2 demoSig1) @ ''3c'' @ take 128 (drop 2 demoSigA) @ ''1b''"
    unfolding so by (simp add: pa pb)
  with run show ?thesis by blast
qed

text \<open>
  C10. With an empty signer list and a deployed account (the nonce query answers a
  nonzero nonce), the orchestrator returns, without error and after the nonce query as
  its only call, the operation with signature \<^verbatim>\<open>0x\<close> and every gas and fee field zero.
\<close>

theorem empty_signer_list:
  assumes "signerAddresses p = []"
    and "getAccountNonce w (walletAddress p) = Inr n" and "n \<noteq> 0"
  shows "buildAndSignMultisigUserOp w p =
           ([NonceQuery (walletAddress p)],
            Inr \<lparr>sender = walletAddress p, nonce = n, factory = None, factoryData = None,
                 callData = callData_arg p, maxPriorityFeePerGas = 0, maxFeePerGas = 0,
                 callGasLimit = 0, verificationGasLimit = 0, preVerificationGas = 0,
                 signature = ''0x''\<rparr>)"
  using assms
  by (simp add: buildAndSignMultisigUserOp_def getPartialUserOp_def io_simps Let_def
      buildMultiSigUserOp_def sortBySigner_def)

theorem empty_signer_list_witness:
  "buildAndSignMultisigUserOp demoWorld (demoParams\<lparr>signerAddresses := []\<rparr>) =
     ([NonceQuery ''0x00000000000000000000000000000000000000aa''],
      Inr \<lparr>sender = ''0x00000000000000000000000000000000000000aa'', nonce = 5,
           factory = None, factoryData = None,
           callData = ''0x'', maxPriorityFeePerGas = 0, maxFeePerGas = 0,
           callGasLimit = 0, verificationGasLimit = 0, preVerificationGas = 0,
           signature = ''0x''\<rparr>)"
proof -
  have a: "signerAddresses (demoParams\<lparr>signerAddresses := []\<rparr>) = []" by simp
  have b: "getAccountNonce demoWorld (walletAddress (demoParams\<lparr>signerAddresses := []\<rparr>)) = Inr 5"
    by (simp add: demoWorld_def)
  have c: "(5::nat) \<noteq> 0" by simp
  from empty_signer_list [OF a b c] show ?thesis
    by (simp add: demoParams_def)
qed


end
